theory Spec2Isabelle
  imports Complex_Main
begin

section \<open>Python values and the operations the ingestion code applies to them\<close>

text \<open>
  The request body and the parsed LLM reply are dynamically typed JSON values, as
  \<^verbatim>\<open>request.json\<close> and \<^verbatim>\<open>json.loads\<close> produce them: \<^verbatim>\<open>None\<close>, \<^verbatim>\<open>bool\<close>,
  \<^verbatim>\<open>int\<close>, \<^verbatim>\<open>float\<close>, \<^verbatim>\<open>str\<close>, \<^verbatim>\<open>list\<close> and \<^verbatim>\<open>dict\<close>. A dict is an association
  list read with \<open>map_of\<close> (its keys are distinct in every value \<^verbatim>\<open>json.loads\<close>
  returns). Floats are their exact values; the non-finite floats are left out.
\<close>

datatype json =
    JNull
  | JBool bool
  | JInt int
  | JFloat rat
  | JStr string
  | JArr "json list"
  | JObj "(string \<times> json) list"

text \<open>
  Exceptions are values. Each carries its message, which is what \<^verbatim>\<open>str(e)\<close> returns.
  \<open>Exception\<close> stands for every exception class the code does not tell apart (the
  graph engine's, the driver's, the LLM client's).
\<close>

datatype exn =
    AttributeError string
  | TypeError string
  | KeyError string
  | ValueError string
  | JSONDecodeError string
  | RecursionError string
  | Exception string

fun exn_str :: "exn \<Rightarrow> string" where
  "exn_str (AttributeError m) = m"
| "exn_str (TypeError m) = m"
| "exn_str (KeyError m) = m"
| "exn_str (ValueError m) = m"
| "exn_str (JSONDecodeError m) = m"
| "exn_str (RecursionError m) = m"
| "exn_str (Exception m) = m"

fun py_type_name :: "json \<Rightarrow> string" where
  "py_type_name JNull = ''NoneType''"
| "py_type_name (JBool _) = ''bool''"
| "py_type_name (JInt _) = ''int''"
| "py_type_name (JFloat _) = ''float''"
| "py_type_name (JStr _) = ''str''"
| "py_type_name (JArr _) = ''list''"
| "py_type_name (JObj _) = ''dict''"

text \<open>Truth value testing: \<^verbatim>\<open>if name:\<close>, \<^verbatim>\<open>not content\<close>.\<close>

fun py_truthy :: "json \<Rightarrow> bool" where
  "py_truthy JNull = False"
| "py_truthy (JBool b) = b"
| "py_truthy (JInt i) = (i \<noteq> 0)"
| "py_truthy (JFloat r) = (r \<noteq> 0)"
| "py_truthy (JStr s) = (s \<noteq> [])"
| "py_truthy (JArr xs) = (xs \<noteq> [])"
| "py_truthy (JObj kv) = (kv \<noteq> [])"

text \<open>\<^verbatim>\<open>d.get(k, default)\<close>: only a dict has the method.\<close>

fun py_get :: "json \<Rightarrow> string \<Rightarrow> json \<Rightarrow> exn + json" where
  "py_get (JObj kv) k d = Inr (case map_of kv k of Some v \<Rightarrow> v | None \<Rightarrow> d)"
| "py_get v k d =
     Inl (AttributeError ([CHR 0x27] @ py_type_name v @ [CHR 0x27] @ '' object has no attribute '' @
                          [CHR 0x27] @ ''get'' @ [CHR 0x27]))"

text \<open>
  \<^verbatim>\<open>for x in v\<close>: a list gives its elements, a dict its keys, a string its
  characters; nothing else is iterable.
\<close>

fun py_iter :: "json \<Rightarrow> exn + json list" where
  "py_iter (JArr xs) = Inr xs"
| "py_iter (JObj kv) = Inr (map (\<lambda>p. JStr (fst p)) kv)"
| "py_iter (JStr s) = Inr (map (\<lambda>c. JStr [c]) s)"
| "py_iter v =
     Inl (TypeError ([CHR 0x27] @ py_type_name v @ [CHR 0x27] @ '' object is not iterable''))"

text \<open>Allowed relationship types.\<close>

definition ALLOWED_RELATION_TYPES :: "string set" where
  "ALLOWED_RELATION_TYPES =
     {''does'', ''performs'', ''includes'', ''happens_on'', ''focuses_on'', ''practices''}"

text \<open>
  \<^verbatim>\<open>v in ALLOWED_RELATION_TYPES\<close>: membership in a set hashes \<open>v\<close>, so a list or a
  dict raises; any other value that is not one of the six strings is not a member.
\<close>

fun in_allowed :: "json \<Rightarrow> exn + bool" where
  "in_allowed (JStr s) = Inr (s \<in> ALLOWED_RELATION_TYPES)"
| "in_allowed (JArr xs) =
     Inl (TypeError (''unhashable type: '' @ [CHR 0x27] @ ''list'' @ [CHR 0x27]))"
| "in_allowed (JObj kv) =
     Inl (TypeError (''unhashable type: '' @ [CHR 0x27] @ ''dict'' @ [CHR 0x27]))"
| "in_allowed v = Inr False"

section \<open>The graph store\<close>

text \<open>
  The store is a property graph: nodes with labels and properties, identified by their
  position, and directed typed relationships between positions. Nothing makes a name
  unique: two nodes may carry the same label and name, and the statements below read
  the store as the lists it is, so a duplicate is a difference.
\<close>

record gnode =
  node_labels :: "string list"
  node_props :: "(string \<times> json) list"

record grel =
  r_src :: nat
  r_type :: string
  r_dst :: nat

record graph_store =
  gnodes :: "gnode list"
  grels :: "grel list"

text \<open>
  The three statements \<^verbatim>\<open>insert_structured_graph\<close> sends, with their parameters:
  \<^item> \<open>MergeEntity name\<close>: \<^verbatim>\<open>MERGE (n:Entity {name: $name})\<close>;
  \<^item> \<open>MergeMentions episode_name entity_name\<close>:
    \<^verbatim>\<open>MATCH (e:Episode {name: $episode_name}) MATCH (n:Entity {name: $entity_name}) MERGE (e)-[:MENTIONS]->(n)\<close>;
  \<^item> \<open>MergeTyped rel_type source target\<close>:
    \<^verbatim>\<open>MATCH (a:Entity {name: $source}) MATCH (b:Entity {name: $target}) MERGE (a)-[r:`rel_type`]->(b)\<close>.
\<close>

datatype cypher =
    MergeEntity json
  | MergeMentions json json
  | MergeTyped string json json

text \<open>
  A pattern \<^verbatim>\<open>(n:Label {name: $v})\<close> matches the nodes that carry the label and whose
  \<open>name\<close> property equals \<open>v\<close>; \<open>null\<close> equals nothing.
\<close>

definition node_matches :: "string \<Rightarrow> json \<Rightarrow> gnode \<Rightarrow> bool" where
  "node_matches lbl v n \<longleftrightarrow>
     lbl \<in> set (node_labels n) \<and> v \<noteq> JNull \<and> map_of (node_props n) ''name'' = Some v"

definition match_nodes :: "string \<Rightarrow> json \<Rightarrow> graph_store \<Rightarrow> nat list" where
  "match_nodes lbl v g = filter (\<lambda>i. node_matches lbl v (gnodes g ! i)) [0..<length (gnodes g)]"

text \<open>\<^verbatim>\<open>MERGE\<close> of a relationship between two bound nodes: created unless it is there.\<close>

definition merge_rel :: "grel \<Rightarrow> grel list \<Rightarrow> grel list" where
  "merge_rel r rs = (if r \<in> set rs then rs else rs @ [r])"

definition rels_between :: "string \<Rightarrow> nat list \<Rightarrow> nat list \<Rightarrow> grel list" where
  "rels_between t as bs =
     map (\<lambda>p. \<lparr>r_src = fst p, r_type = t, r_dst = snd p\<rparr>) (List.product as bs)"

text \<open>The node \<^verbatim>\<open>MERGE (n:Entity {name: $name})\<close> creates.\<close>

definition entity_node :: "json \<Rightarrow> gnode" where
  "entity_node v = \<lparr>node_labels = [''Entity''], node_props = [(''name'', v)]\<rparr>"

text \<open>
  A \<^verbatim>\<open>MATCH\<close> that finds nothing yields no row: the \<^verbatim>\<open>MERGE\<close> after it runs for no
  row, writes nothing, and the statement completes without an error.
\<close>

fun apply_cypher :: "cypher \<Rightarrow> graph_store \<Rightarrow> graph_store" where
  "apply_cypher (MergeEntity v) g =
     (if match_nodes ''Entity'' v g = []
      then g\<lparr>gnodes := gnodes g @ [entity_node v]\<rparr>
      else g)"
| "apply_cypher (MergeMentions ep v) g =
     g\<lparr>grels := fold merge_rel
        (rels_between ''MENTIONS'' (match_nodes ''Episode'' ep g) (match_nodes ''Entity'' v g))
        (grels g)\<rparr>"
| "apply_cypher (MergeTyped t a b) g =
     g\<lparr>grels := fold merge_rel
        (rels_between t (match_nodes ''Entity'' a g) (match_nodes ''Entity'' b g))
        (grels g)\<rparr>"

section \<open>The world outside the process\<close>

type_synonym datetime = int

text \<open>
  Every call that leaves the process is recorded, in order. The position of a call in
  that record is the clock the collaborators' answers depend on, so two calls with the
  same arguments may be answered differently.
\<close>

datatype call =
    CallNow
  | CallAddEpisode json json json datetime
  | CallCompletion string
  | CallRun cypher
  | CallConnect
  | CallSearch string

datatype log_record = LogDebug string | LogInfo string | LogError string

record world =
  graph :: graph_store
  calls :: "call list"
  logs :: "log_record list"

text \<open>A match of the graph engine's search: the attributes the facade reads.\<close>

record search_hit =
  hit_uuid :: string
  hit_fact :: string
  hit_source_node_uuid :: "string option"
  hit_valid_at :: "datetime option"
  hit_invalid_at :: "datetime option"

text \<open>
  The collaborators, none of which is code of the repository:
  \<^item> \<open>json_loads\<close>: \<^verbatim>\<open>json.loads\<close>; it raises \<open>JSONDecodeError\<close> on a text that is not
    valid JSON;
  \<^item> \<open>completion\<close>: \<^verbatim>\<open>client.chat.completions.create(...)\<close> followed by
    \<^verbatim>\<open>.choices[0].message.content\<close>, for the prompt given;
  \<^item> \<open>graphiti_add_episode\<close>: the graph engine's \<^verbatim>\<open>add_episode\<close>, with source type
    \<^verbatim>\<open>EpisodeType.text\<close>; what it writes is its own business, and it may have written
    part of it when it raises;
  \<^item> \<open>driver_fault\<close>: the exception, if any, that \<^verbatim>\<open>session.run\<close> raises at this
    point of the clock (connectivity, a value the store cannot hold); the statement
    then changes nothing;
  \<^item> \<open>utc_now\<close>: \<^verbatim>\<open>datetime.now(timezone.utc)\<close>;
  \<^item> \<open>fromisoformat\<close>: \<^verbatim>\<open>datetime.fromisoformat\<close> on a string, \<open>None\<close> where it
    raises;
  \<^item> \<open>py_repr\<close>: \<^verbatim>\<open>str(v)\<close> for a value that is not a string;
  \<^item> \<open>graphiti_connect\<close>: building the client and the run context of a search request,
    with the exception, if any, that this raises;
  \<^item> \<open>graphiti_search\<close>: the graph engine's \<^verbatim>\<open>search\<close>;
  \<^item> \<open>validate_search_request\<close>: \<^verbatim>\<open>SearchRequest(**request_data)\<close>, returning its
    \<open>query\<close> field;
  \<^item> \<open>hit_repr\<close>, \<open>datetime_str\<close>, \<open>format_exc\<close>: \<^verbatim>\<open>str\<close> of a match and of a
    timestamp, and \<^verbatim>\<open>traceback.format_exc()\<close>.
\<close>

record env =
  json_loads :: "string \<Rightarrow> exn + json"
  completion :: "nat \<Rightarrow> string \<Rightarrow> exn + string"
  graphiti_add_episode ::
    "nat \<Rightarrow> json \<Rightarrow> json \<Rightarrow> json \<Rightarrow> datetime \<Rightarrow> graph_store \<Rightarrow> exn option \<times> graph_store"
  driver_fault :: "nat \<Rightarrow> exn option"
  utc_now :: "nat \<Rightarrow> datetime"
  fromisoformat :: "string \<Rightarrow> datetime option"
  py_repr :: "json \<Rightarrow> string"
  graphiti_connect :: "nat \<Rightarrow> exn option"
  graphiti_search :: "nat \<Rightarrow> string \<Rightarrow> exn + search_hit list"
  validate_search_request :: "json \<Rightarrow> exn + string"
  hit_repr :: "search_hit \<Rightarrow> string"
  datetime_str :: "datetime \<Rightarrow> string"
  format_exc :: "exn \<Rightarrow> string"

text \<open>\<^verbatim>\<open>await session.run(query, ...)\<close>.\<close>

definition session_run :: "env \<Rightarrow> cypher \<Rightarrow> world \<Rightarrow> (exn + unit) \<times> world" where
  "session_run E q w =
     (case driver_fault E (length (calls w)) of
        Some e \<Rightarrow> (Inl e, w\<lparr>calls := calls w @ [CallRun q]\<rparr>)
      | None \<Rightarrow> (Inr (), w\<lparr>graph := apply_cypher q (graph w), calls := calls w @ [CallRun q]\<rparr>))"

section \<open>Insert function\<close>

text \<open>The loop over \<^verbatim>\<open>structured_data.get("nodes", [])\<close>.\<close>

fun insert_nodes :: "env \<Rightarrow> json \<Rightarrow> json list \<Rightarrow> world \<Rightarrow> (exn + unit) \<times> world" where
  "insert_nodes E episode_name [] w = (Inr (), w)"
| "insert_nodes E episode_name (node # rest) w =
     (case py_get node ''name'' JNull of
        Inl e \<Rightarrow> (Inl e, w)
      | Inr name \<Rightarrow>
          if py_truthy name then
            (case session_run E (MergeEntity name) w of
               (Inl e, w1) \<Rightarrow> (Inl e, w1)
             | (Inr _, w1) \<Rightarrow>
                 (case session_run E (MergeMentions episode_name name) w1 of
                    (Inl e, w2) \<Rightarrow> (Inl e, w2)
                  | (Inr _, w2) \<Rightarrow> insert_nodes E episode_name rest w2))
          else insert_nodes E episode_name rest w)"

text \<open>The loop over \<^verbatim>\<open>structured_data.get("edges", [])\<close>.\<close>

fun insert_edges :: "env \<Rightarrow> json list \<Rightarrow> world \<Rightarrow> (exn + unit) \<times> world" where
  "insert_edges E [] w = (Inr (), w)"
| "insert_edges E (edge # rest) w =
     (case py_get edge ''source'' JNull of
        Inl e \<Rightarrow> (Inl e, w)
      | Inr source \<Rightarrow>
     (case py_get edge ''target'' JNull of
        Inl e \<Rightarrow> (Inl e, w)
      | Inr target \<Rightarrow>
     (case py_get edge ''type'' JNull of
        Inl e \<Rightarrow> (Inl e, w)
      | Inr rel_type \<Rightarrow>
     (case in_allowed rel_type of
        Inl e \<Rightarrow> (Inl e, w)
      | Inr False \<Rightarrow> insert_edges E rest w
      | Inr True \<Rightarrow>
          (case rel_type of
             JStr t \<Rightarrow>
               (case session_run E (MergeTyped t source target) w of
                  (Inl e, w1) \<Rightarrow> (Inl e, w1)
                | (Inr _, w1) \<Rightarrow> insert_edges E rest w1)
           | _ \<Rightarrow> insert_edges E rest w)))))"

definition insert_structured_graph :: "env \<Rightarrow> json \<Rightarrow> json \<Rightarrow> world \<Rightarrow> (exn + unit) \<times> world" where
  "insert_structured_graph E structured_data episode_name w =
     (case py_get structured_data ''nodes'' (JArr []) of
        Inl e \<Rightarrow> (Inl e, w)
      | Inr ns \<Rightarrow>
     (case py_iter ns of
        Inl e \<Rightarrow> (Inl e, w)
      | Inr nodes \<Rightarrow>
     (case insert_nodes E episode_name nodes w of
        (Inl e, w1) \<Rightarrow> (Inl e, w1)
      | (Inr _, w1) \<Rightarrow>
     (case py_get structured_data ''edges'' (JArr []) of
        Inl e \<Rightarrow> (Inl e, w1)
      | Inr es \<Rightarrow>
     (case py_iter es of
        Inl e \<Rightarrow> (Inl e, w1)
      | Inr edges \<Rightarrow> insert_edges E edges w1)))))"

section \<open>LLM extract function\<close>

text \<open>\<^verbatim>\<open>str(v)\<close>, as an f-string or \<^verbatim>\<open>%s\<close> renders a value.\<close>

definition py_str :: "env \<Rightarrow> json \<Rightarrow> string" where
  "py_str E v = (case v of JStr s \<Rightarrow> s | _ \<Rightarrow> py_repr E v)"

text \<open>
  Strings are UTF-8 bytes (the prompt's two pictographs are theirs). \<^verbatim>\<open>s.strip()\<close>
  removes from both ends the characters \<^verbatim>\<open>str.isspace\<close> accepts: U+0009 to U+000D,
  U+001C to U+0020, U+0085, U+00A0, U+1680, U+2000 to U+200A, U+2028, U+2029, U+202F,
  U+205F and U+3000, listed here by their encodings. No encoding is the beginning or the
  end of another, and none ends inside another character, so removing them as byte
  sequences from the ends of a text removes exactly these characters.
\<close>

definition py_whitespace :: "string list" where
  "py_whitespace =
     [[CHR 0x09], [CHR 0x0A], [CHR 0x0B], [CHR 0x0C], [CHR 0x0D],
      [CHR 0x1C], [CHR 0x1D], [CHR 0x1E], [CHR 0x1F], [CHR 0x20],
      [CHR 0xC2, CHR 0x85], [CHR 0xC2, CHR 0xA0],
      [CHR 0xE1, CHR 0x9A, CHR 0x80],
      [CHR 0xE2, CHR 0x80, CHR 0x80], [CHR 0xE2, CHR 0x80, CHR 0x81],
      [CHR 0xE2, CHR 0x80, CHR 0x82], [CHR 0xE2, CHR 0x80, CHR 0x83],
      [CHR 0xE2, CHR 0x80, CHR 0x84], [CHR 0xE2, CHR 0x80, CHR 0x85],
      [CHR 0xE2, CHR 0x80, CHR 0x86], [CHR 0xE2, CHR 0x80, CHR 0x87],
      [CHR 0xE2, CHR 0x80, CHR 0x88], [CHR 0xE2, CHR 0x80, CHR 0x89],
      [CHR 0xE2, CHR 0x80, CHR 0x8A],
      [CHR 0xE2, CHR 0x80, CHR 0xA8], [CHR 0xE2, CHR 0x80, CHR 0xA9],
      [CHR 0xE2, CHR 0x80, CHR 0xAF],
      [CHR 0xE2, CHR 0x81, CHR 0x9F],
      [CHR 0xE3, CHR 0x80, CHR 0x80]]"

text \<open>The first of the given byte sequences that the text begins with, if any.\<close>

definition leading :: "string list \<Rightarrow> string \<Rightarrow> string option" where
  "leading seqs s = find (\<lambda>ws. ws \<noteq> [] \<and> take (length ws) s = ws) seqs"

function strip_leading :: "string list \<Rightarrow> string \<Rightarrow> string" where
  "strip_leading seqs s =
     (case leading seqs s of
        None \<Rightarrow> s
      | Some ws \<Rightarrow> strip_leading seqs (drop (length ws) s))"
  by pat_completeness auto
termination
proof (relation "measure (\<lambda>p. length (snd p))")
  show "wf (measure (\<lambda>p. length (snd p)))" by simp
next
  fix seqs :: "string list" and s ws :: string
  assume "leading seqs s = Some ws"
  then have "ws \<noteq> []" and "take (length ws) s = ws"
    by (auto simp: leading_def find_Some_iff)
  then have "0 < length ws" and "length ws \<le> length s"
    by (auto simp: take_eq_Nil dest: arg_cong[where f = length])
  then have "length s - length ws < length s"
    by linarith
  then show "((seqs, drop (length ws) s), (seqs, s)) \<in> measure (\<lambda>p. length (snd p))"
    by simp
qed

definition py_strip :: "string \<Rightarrow> string" where
  "py_strip s =
     rev (strip_leading (map rev py_whitespace) (rev (strip_leading py_whitespace s)))"

definition extraction_prompt :: "string \<Rightarrow> string" where
  \<open>extraction_prompt text_arg =
      ''\<newline>'' @
      ''You are an expert at extracting structured data for knowledge graph generation.\<newline>'' @
      '' \<newline>'' @
      ''Given a short paragraph, extract:\<newline>'' @
      ''- Specific entities (people, activities, days, exercises)\<newline>'' @
      ''- Clear, action-based relationships between them\<newline>'' @
      '' \<newline>'' @
      [CHR 0xE2] @ [CHR 0x9A] @ [CHR 0xA0] @ [CHR 0xEF] @ [CHR 0xB8] @ [CHR 0x8F] @ '' DO NOT use generic relationships like "mentions", "related_to", or "associates_with".\<newline>'' @
      [CHR 0xE2] @ [CHR 0x9C] @ [CHR 0x85] @ '' You MUST use only the following relationships:\<newline>'' @
      ''  - "does"\<newline>'' @
      ''  - "performs"\<newline>'' @
      ''  - "includes"\<newline>'' @
      ''  - "happens_on"\<newline>'' @
      ''  - "focuses_on"\<newline>'' @
      ''  - "practices"\<newline>'' @
      '' \<newline>'' @
      ''If no valid relationship can be formed, do NOT include that edge.\<newline>'' @
      '' \<newline>'' @
      ''Output JSON structure:\<newline>'' @
      ''{\<newline>'' @
      ''  "nodes": [{ "name": "<entity>" }],\<newline>'' @
      ''  "edges": [{ "source": "<entity>", "target": "<entity>", "type": "<relationship>" }]\<newline>'' @
      ''}\<newline>'' @
      '' \<newline>'' @
      ''Now extract from the following paragraph:\<newline>'' @
      '' \<newline>'' @
      text_arg @ ''\<newline>''\<close>

text \<open>\<^verbatim>\<open>k in v\<close> for a string \<open>k\<close>: a key of a dict, an element of a list, a substring of a string.\<close>

fun is_substring :: "string \<Rightarrow> string \<Rightarrow> bool" where
  "is_substring k [] = (k = [])"
| "is_substring k (c # s) = (take (length k) (c # s) = k \<or> is_substring k s)"

fun py_contains :: "string \<Rightarrow> json \<Rightarrow> exn + bool" where
  "py_contains k (JObj kv) = Inr (map_of kv k \<noteq> None)"
| "py_contains k (JArr xs) = Inr (JStr k \<in> set xs)"
| "py_contains k (JStr s) = Inr (is_substring k s)"
| "py_contains k v =
     Inl (TypeError (''argument of type '' @ [CHR 0x27] @ py_type_name v @ [CHR 0x27] @ '' is not iterable''))"

text \<open>\<^verbatim>\<open>v[k]\<close> for a string \<open>k\<close>.\<close>

fun py_getitem :: "json \<Rightarrow> string \<Rightarrow> exn + json" where
  "py_getitem (JObj kv) k =
     (case map_of kv k of Some v \<Rightarrow> Inr v | None \<Rightarrow> Inl (KeyError ([CHR 0x27] @ k @ [CHR 0x27])))"
| "py_getitem (JArr xs) k = Inl (TypeError ''list indices must be integers or slices, not str'')"
| "py_getitem (JStr s) k =
     Inl (TypeError (''string indices must be integers, not '' @ [CHR 0x27] @ ''str'' @ [CHR 0x27]))"
| "py_getitem v k =
     Inl (TypeError ([CHR 0x27] @ py_type_name v @ [CHR 0x27] @ '' object is not subscriptable''))"

text \<open>\<^verbatim>\<open>d[k] = v\<close> on a dict: the key keeps its place.\<close>

fun obj_update :: "string \<Rightarrow> json \<Rightarrow> (string \<times> json) list \<Rightarrow> (string \<times> json) list" where
  "obj_update k v [] = [(k, v)]"
| "obj_update k v (p # ps) = (if fst p = k then (k, v) # ps else p # obj_update k v ps)"

fun py_setitem :: "json \<Rightarrow> string \<Rightarrow> json \<Rightarrow> json" where
  "py_setitem (JObj kv) k v = JObj (obj_update k v kv)"
| "py_setitem d k v = d"

text \<open>
  The comprehension \<^verbatim>\<open>[edge for edge in ... if edge.get("type") in ALLOWED_RELATION_TYPES]\<close>:
  the edges are tested in order, and the first test that raises ends it.
\<close>

fun filter_edges :: "json list \<Rightarrow> exn + json list" where
  "filter_edges [] = Inr []"
| "filter_edges (edge # rest) =
     (case py_get edge ''type'' JNull of
        Inl e \<Rightarrow> Inl e
      | Inr t \<Rightarrow>
     (case in_allowed t of
        Inl e \<Rightarrow> Inl e
      | Inr keep \<Rightarrow>
     (case filter_edges rest of
        Inl e \<Rightarrow> Inl e
      | Inr kept \<Rightarrow> Inr (if keep then edge # kept else kept))))"

text \<open>The body of the \<^verbatim>\<open>try\<close> after \<^verbatim>\<open>json.loads\<close>: filter invalid relationships.\<close>

definition filter_invalid_relationships :: "json \<Rightarrow> exn + json" where
  "filter_invalid_relationships structured_data =
     (case py_contains ''edges'' structured_data of
        Inl e \<Rightarrow> Inl e
      | Inr False \<Rightarrow> Inr structured_data
      | Inr True \<Rightarrow>
     (case py_getitem structured_data ''edges'' of
        Inl e \<Rightarrow> Inl e
      | Inr es \<Rightarrow>
     (case py_iter es of
        Inl e \<Rightarrow> Inl e
      | Inr edges \<Rightarrow>
     (case filter_edges edges of
        Inl e \<Rightarrow> Inl e
      | Inr kept \<Rightarrow> Inr (py_setitem structured_data ''edges'' (JArr kept))))))"

text \<open>
  Only \<open>JSONDecodeError\<close> is caught: it is logged as an error and the empty dict is
  returned. Every other exception leaves the function.
\<close>

definition extract_structured_json :: "env \<Rightarrow> json \<Rightarrow> world \<Rightarrow> (exn + json) \<times> world" where
  "extract_structured_json E text_arg w =
     (let prompt = extraction_prompt (py_str E text_arg);
          w1 = w\<lparr>calls := calls w @ [CallCompletion prompt]\<rparr>
      in case completion E (length (calls w)) prompt of
           Inl e \<Rightarrow> (Inl e, w1)
         | Inr content \<Rightarrow>
             (let response_text = py_strip content;
                  w2 = w1\<lparr>logs := logs w1 @ [LogInfo (''LLM Response:\<newline>'' @ response_text)]\<rparr>
              in case json_loads E response_text of
                   Inl e \<Rightarrow>
                     (case e of
                        JSONDecodeError m \<Rightarrow>
                          (Inr (JObj []),
                           w2\<lparr>logs := logs w2 @ [LogError (''Failed to parse LLM JSON: '' @ m)]\<rparr>)
                      | _ \<Rightarrow> (Inl e, w2))
                 | Inr structured_data \<Rightarrow>
                     (case filter_invalid_relationships structured_data of
                        Inl e \<Rightarrow> (Inl e, w2)
                      | Inr filtered \<Rightarrow> (Inr filtered, w2))))"

section \<open>API to add multiple episodes\<close>

text \<open>
  \<^verbatim>\<open>datetime.fromisoformat(reference_time)\<close> inside its \<^verbatim>\<open>try\<close>: a value that is not a
  string raises as an unparsable string does, and \<^verbatim>\<open>except Exception\<close> catches both.
\<close>

definition parse_reference_time :: "env \<Rightarrow> json \<Rightarrow> datetime option" where
  "parse_reference_time E reference_time =
     (case reference_time of JStr s \<Rightarrow> fromisoformat E s | _ \<Rightarrow> None)"

text \<open>
  The body of the last \<^verbatim>\<open>try\<close> of the loop: the episode write, the extraction, and the
  insert when the extracted value is truthy. It returns \<open>structured_json\<close>.
\<close>

definition add_and_extract ::
  "env \<Rightarrow> json \<Rightarrow> json \<Rightarrow> json \<Rightarrow> datetime \<Rightarrow> world \<Rightarrow> (exn + json) \<times> world" where
  "add_and_extract E name content description ref_time w =
     (case graphiti_add_episode E (length (calls w)) name content description ref_time (graph w) of
        (Some e, g1) \<Rightarrow>
          (Inl e, w\<lparr>graph := g1,
                    calls := calls w @ [CallAddEpisode name content description ref_time]\<rparr>)
      | (None, g1) \<Rightarrow>
          (case extract_structured_json E content
                  (w\<lparr>graph := g1,
                     calls := calls w @ [CallAddEpisode name content description ref_time]\<rparr>) of
             (Inl e, w2) \<Rightarrow> (Inl e, w2)
           | (Inr structured_json, w2) \<Rightarrow>
               if py_truthy structured_json then
                 (case insert_structured_graph E structured_json name w2 of
                    (Inl e, w3) \<Rightarrow> (Inl e, w3)
                  | (Inr _, w3) \<Rightarrow> (Inr structured_json, w3))
               else (Inr structured_json, w2)))"

text \<open>One turn of the loop \<^verbatim>\<open>for ep in episodes\<close>; \<open>results\<close> is the list it appends to.\<close>

definition process_episode :: "env \<Rightarrow> json \<Rightarrow> json list \<Rightarrow> world \<Rightarrow> (exn + json list) \<times> world" where
  "process_episode E ep results w =
     (case py_get ep ''name'' JNull of
        Inl e \<Rightarrow> (Inl e, w)
      | Inr name \<Rightarrow>
     (case py_get ep ''content'' JNull of
        Inl e \<Rightarrow> (Inl e, w)
      | Inr content \<Rightarrow>
     (case py_get ep ''description'' (JStr []) of
        Inl e \<Rightarrow> (Inl e, w)
      | Inr description \<Rightarrow>
     (case py_get ep ''reference_time'' JNull of
        Inl e \<Rightarrow> (Inl e, w)
      | Inr reference_time \<Rightarrow>
          if \<not> py_truthy name \<or> \<not> py_truthy content then
            (Inr (results @ [JObj [(''error'', JStr ''Missing name or content for one episode'')]]), w)
          else
            (let now = utc_now E (length (calls w));
                 w1 = w\<lparr>calls := calls w @ [CallNow]\<rparr>
             in case (if py_truthy reference_time
                      then parse_reference_time E reference_time else Some now) of
                  None \<Rightarrow>
                    (Inr (results @
                       [JObj [(''error'',
                               JStr (''Invalid reference_time for episode: '' @ py_str E name))]]),
                     w1)
                | Some ref_time \<Rightarrow>
                    (case add_and_extract E name content description ref_time w1 of
                       (Inl e, w2) \<Rightarrow>
                         (Inr (results @ [JObj [(''name'', name), (''error'', JStr (exn_str e))]]),
                          w2\<lparr>logs := logs w2 @
                             [LogError (''Error in episode '' @ [CHR 0x27] @ py_str E name @
                                        [CHR 0x27] @ '': '' @ exn_str e)]\<rparr>)
                     | (Inr structured_json, w2) \<Rightarrow>
                         (Inr (results @
                            [JObj [(''name'', name),
                                   (''message'', JStr ''Episode added successfully''),
                                   (''structured'', structured_json)]]),
                          w2)))))))"

fun process_all :: "env \<Rightarrow> json list \<Rightarrow> json list \<Rightarrow> world \<Rightarrow> (exn + json list) \<times> world" where
  "process_all E [] results w = (Inr results, w)"
| "process_all E (ep # rest) results w =
     (case process_episode E ep results w of
        (Inl e, w1) \<Rightarrow> (Inl e, w1)
      | (Inr results1, w1) \<Rightarrow> process_all E rest results1 w1)"

text \<open>
  The handler: the HTTP status with the body of the response. An exception that leaves
  \<open>process_all\<close> leaves the handler too.
\<close>

definition add_episodes :: "env \<Rightarrow> json \<Rightarrow> world \<Rightarrow> (exn + nat \<times> json) \<times> world" where
  "add_episodes E episodes w =
     (case episodes of
        JArr eps \<Rightarrow>
          (case process_all E eps [] w of
             (Inl e, w1) \<Rightarrow> (Inl e, w1)
           | (Inr result, w1) \<Rightarrow> (Inr (200, JArr result), w1))
      | _ \<Rightarrow> (Inr (400, JObj [(''error'', JStr ''Expected a list of episodes'')]), w))"

section \<open>Search tool and its endpoint\<close>

record GraphitiSearchResult =
  res_uuid :: string
  res_fact :: string
  res_valid_at :: "string option"
  res_invalid_at :: "string option"
  res_source_node_uuid :: "string option"

definition format_result :: "env \<Rightarrow> search_hit \<Rightarrow> GraphitiSearchResult" where
  "format_result E h =
     \<lparr>res_uuid = hit_uuid h,
      res_fact = hit_fact h,
      res_valid_at = map_option (datetime_str E) (hit_valid_at h),
      res_invalid_at = map_option (datetime_str E) (hit_invalid_at h),
      res_source_node_uuid = hit_source_node_uuid h\<rparr>"

definition search_graphiti ::
  "env \<Rightarrow> string \<Rightarrow> world \<Rightarrow> (exn + GraphitiSearchResult list) \<times> world" where
  "search_graphiti E query w =
     (let w1 = w\<lparr>calls := calls w @ [CallSearch query],
                 logs := logs w @ [LogInfo (''Performing search with query: '' @ query)]\<rparr>
      in case graphiti_search E (length (calls w)) query of
           Inl e \<Rightarrow>
             (Inl (Exception (''Graphiti search failed: '' @ exn_str e)),
              w1\<lparr>logs := logs w1 @ [LogError (''Error searching Graphiti: '' @ exn_str e)]\<rparr>)
         | Inr results \<Rightarrow>
             (Inr (map (format_result E) results),
              w1\<lparr>logs := logs w1 @
                 [LogInfo (''Search returned '' @ py_repr E (JInt (int (length results))) @
                           '' results'')] @
                 map (\<lambda>h. LogDebug (''Processing result: '' @ hit_repr E h)) results\<rparr>))"

text \<open>\<^verbatim>\<open>result.dict()\<close>, the fields in the order the model declares them.\<close>

definition opt_json :: "string option \<Rightarrow> json" where
  "opt_json v = (case v of None \<Rightarrow> JNull | Some s \<Rightarrow> JStr s)"

definition result_dict :: "GraphitiSearchResult \<Rightarrow> json" where
  "result_dict r =
     JObj [(''uuid'', JStr (res_uuid r)),
           (''fact'', JStr (res_fact r)),
           (''valid_at'', opt_json (res_valid_at r)),
           (''invalid_at'', opt_json (res_invalid_at r)),
           (''source_node_uuid'', opt_json (res_source_node_uuid r))]"

text \<open>The \<^verbatim>\<open>except Exception\<close> of the endpoint: two error records and the fixed answer.\<close>

definition search_failed :: "env \<Rightarrow> exn \<Rightarrow> world \<Rightarrow> (nat \<times> json) \<times> world" where
  "search_failed E e w =
     ((500, JObj [(''detail'', JStr ''An error occurred while processing the request'')]),
      w\<lparr>logs := logs w @
         [LogError (''Error handling search request: '' @ exn_str e), LogError (format_exc E e)]\<rparr>)"

definition search_graphiti_api :: "env \<Rightarrow> json \<Rightarrow> world \<Rightarrow> (nat \<times> json) \<times> world" where
  "search_graphiti_api E request_data w =
     (let w1 = w\<lparr>logs := logs w @ [LogInfo (''Search request data: '' @ py_str E request_data)]\<rparr>
      in case validate_search_request E request_data of
           Inl e \<Rightarrow> search_failed E e w1
         | Inr query \<Rightarrow>
             (case graphiti_connect E (length (calls w1)) of
                Some e \<Rightarrow> search_failed E e (w1\<lparr>calls := calls w1 @ [CallConnect]\<rparr>)
              | None \<Rightarrow>
                  (case search_graphiti E query (w1\<lparr>calls := calls w1 @ [CallConnect]\<rparr>) of
                     (Inl e, w2) \<Rightarrow> search_failed E e w2
                   | (Inr search_results, w2) \<Rightarrow>
                       ((200, JArr (map result_dict search_results)), w2))))"

section \<open>The statements an insert sends\<close>

text \<open>
  Which statements \<^verbatim>\<open>insert_structured_graph\<close> sends, and whether it then raises on
  its own, depends on its input alone. \<open>nodes_plan\<close> and \<open>edges_plan\<close> list the
  statements of the two loops with the loop's own outcome; \<open>run_plan\<close> sends a list
  of statements until one raises.
\<close>

fun nodes_plan :: "json \<Rightarrow> json list \<Rightarrow> cypher list \<times> (exn + unit)" where
  "nodes_plan episode_name [] = ([], Inr ())"
| "nodes_plan episode_name (node # rest) =
     (case py_get node ''name'' JNull of
        Inl e \<Rightarrow> ([], Inl e)
      | Inr name \<Rightarrow>
          if py_truthy name then
            (MergeEntity name # MergeMentions episode_name name # fst (nodes_plan episode_name rest),
             snd (nodes_plan episode_name rest))
          else nodes_plan episode_name rest)"

fun edges_plan :: "json list \<Rightarrow> cypher list \<times> (exn + unit)" where
  "edges_plan [] = ([], Inr ())"
| "edges_plan (edge # rest) =
     (case py_get edge ''source'' JNull of
        Inl e \<Rightarrow> ([], Inl e)
      | Inr source \<Rightarrow>
     (case py_get edge ''target'' JNull of
        Inl e \<Rightarrow> ([], Inl e)
      | Inr target \<Rightarrow>
     (case py_get edge ''type'' JNull of
        Inl e \<Rightarrow> ([], Inl e)
      | Inr rel_type \<Rightarrow>
     (case in_allowed rel_type of
        Inl e \<Rightarrow> ([], Inl e)
      | Inr False \<Rightarrow> edges_plan rest
      | Inr True \<Rightarrow>
          (case rel_type of
             JStr t \<Rightarrow> (MergeTyped t source target # fst (edges_plan rest), snd (edges_plan rest))
           | _ \<Rightarrow> edges_plan rest)))))"

fun run_plan :: "env \<Rightarrow> cypher list \<Rightarrow> world \<Rightarrow> (exn + unit) \<times> world" where
  "run_plan E [] w = (Inr (), w)"
| "run_plan E (q # qs) w =
     (case session_run E q w of
        (Inl e, w1) \<Rightarrow> (Inl e, w1)
      | (Inr _, w1) \<Rightarrow> run_plan E qs w1)"

definition upsert_plan :: "json \<Rightarrow> json \<Rightarrow> cypher list \<times> (exn + unit)" where
  "upsert_plan structured_data episode_name =
     (case py_get structured_data ''nodes'' (JArr []) of
        Inl e \<Rightarrow> ([], Inl e)
      | Inr ns \<Rightarrow>
     (case py_iter ns of
        Inl e \<Rightarrow> ([], Inl e)
      | Inr nodes \<Rightarrow>
     (case snd (nodes_plan episode_name nodes) of
        Inl e \<Rightarrow> (fst (nodes_plan episode_name nodes), Inl e)
      | Inr _ \<Rightarrow>
     (case py_get structured_data ''edges'' (JArr []) of
        Inl e \<Rightarrow> (fst (nodes_plan episode_name nodes), Inl e)
      | Inr es \<Rightarrow>
     (case py_iter es of
        Inl e \<Rightarrow> (fst (nodes_plan episode_name nodes), Inl e)
      | Inr edges \<Rightarrow>
          (fst (nodes_plan episode_name nodes) @ fst (edges_plan edges),
           snd (edges_plan edges)))))))"

text \<open>
  When a statement has nothing left to do. An entity is there once a node matches its
  name; a statement is \<open>firm\<close> in a store when sending it changes nothing and no
  later statement of an insert can make it change something again.
\<close>

definition has_entity :: "json \<Rightarrow> graph_store \<Rightarrow> bool" where
  "has_entity v g \<longleftrightarrow> match_nodes ''Entity'' v g \<noteq> []"

fun firm :: "cypher \<Rightarrow> graph_store \<Rightarrow> bool" where
  "firm (MergeEntity v) g = has_entity v g"
| "firm (MergeMentions ep v) g = (has_entity v g \<and> apply_cypher (MergeMentions ep v) g = g)"
| "firm (MergeTyped t a b) g = (apply_cypher (MergeTyped t a b) g = g)"

fun is_typed :: "cypher \<Rightarrow> bool" where
  "is_typed (MergeTyped t a b) = True"
| "is_typed q = False"

section \<open>A small world to run the code in\<close>

text \<open>
  Collaborators that never fail: the graph engine records an episode as one node
  labelled \<open>Episode\<close>, the LLM answers with a fixed text for each content, and the
  clock of \<open>utc_now\<close> is the number of calls made so far.
\<close>

definition episode_node :: "json \<Rightarrow> gnode" where
  "episode_node v = \<lparr>node_labels = [''Episode''], node_props = [(''name'', v)]\<rparr>"

definition yoga_graph :: json where
  "yoga_graph =
     JObj [(''nodes'', JArr [JObj [(''name'', JStr ''Alice'')], JObj [(''name'', JStr ''Yoga'')]]),
           (''edges'', JArr [JObj [(''source'', JStr ''Alice''), (''target'', JStr ''Yoga''),
                                   (''type'', JStr ''practices'')],
                             JObj [(''source'', JStr ''Alice''), (''target'', JStr ''Monday''),
                                   (''type'', JStr ''mentions_on'')]])]"

definition quiet_env :: env where
  "quiet_env =
     \<lparr>json_loads = (\<lambda>s. if s = ''yoga'' then Inr yoga_graph
                         else Inl (JSONDecodeError ''Expecting value: line 1 column 1 (char 0)'')),
      completion = (\<lambda>n p. Inr ''  not json  ''),
      graphiti_add_episode = (\<lambda>n name body description t g.
         (None, g\<lparr>gnodes := gnodes g @ [episode_node name]\<rparr>)),
      driver_fault = (\<lambda>n. None),
      utc_now = (\<lambda>n. int n),
      fromisoformat = (\<lambda>s. if s = ''2024-01-01'' then Some 0 else None),
      py_repr = (\<lambda>v. ''?''),
      graphiti_connect = (\<lambda>n. None),
      graphiti_search = (\<lambda>n q. Inl (Exception ''connection refused'')),
      validate_search_request = (\<lambda>v. case v of
         JObj kv \<Rightarrow> (case map_of kv ''query'' of
                       Some (JStr q) \<Rightarrow> Inr q
                     | _ \<Rightarrow> Inl (ValueError ''query''))
       | _ \<Rightarrow> Inl (TypeError ''argument after ** must be a mapping'')),
      hit_repr = (\<lambda>h. hit_uuid h),
      datetime_str = (\<lambda>t. ''t''),
      format_exc = (\<lambda>e. ''Traceback'')\<rparr>"

text \<open>
  An LLM that answers with two thousand opening brackets, and a \<^verbatim>\<open>json.loads\<close> that
  runs out of recursion depth on them, as CPython's does on a thousand or more.
\<close>

definition deep_reply :: string where
  "deep_reply = replicate 2000 (CHR ''['')"

definition deep_env :: env where
  "deep_env =
     quiet_env
       \<lparr>json_loads := (\<lambda>s. if s = deep_reply
            then Inl (RecursionError
                   ''maximum recursion depth exceeded while decoding a JSON array from a unicode string'')
            else json_loads quiet_env s),
        completion := (\<lambda>n p. Inr deep_reply)\<rparr>"

definition ep1_world :: world where
  "ep1_world =
     \<lparr>graph = \<lparr>gnodes = [episode_node (JStr ''Ep1'')], grels = []\<rparr>, calls = [], logs = []\<rparr>"

text \<open>The world after \<open>yoga_graph\<close> was inserted for the episode \<open>Ep1\<close> of \<open>ep1_world\<close>.\<close>

definition yoga_world :: world where
  "yoga_world =
     \<lparr>graph =
        \<lparr>gnodes = [episode_node (JStr ''Ep1''), entity_node (JStr ''Alice''),
                   entity_node (JStr ''Yoga'')],
         grels = [\<lparr>r_src = 0, r_type = ''MENTIONS'', r_dst = 1\<rparr>,
                  \<lparr>r_src = 0, r_type = ''MENTIONS'', r_dst = 2\<rparr>,
                  \<lparr>r_src = 1, r_type = ''practices'', r_dst = 2\<rparr>]\<rparr>,
      calls = [CallRun (MergeEntity (JStr ''Alice'')),
               CallRun (MergeMentions (JStr ''Ep1'') (JStr ''Alice'')),
               CallRun (MergeEntity (JStr ''Yoga'')),
               CallRun (MergeMentions (JStr ''Ep1'') (JStr ''Yoga'')),
               CallRun (MergeTyped ''practices'' (JStr ''Alice'') (JStr ''Yoga''))],
      logs = []\<rparr>"

text \<open>
  \<open>blank_graph\<close> has a node entry with an empty name between two named ones;
  \<open>monday_edge\<close> names a target no node entry created.
\<close>

definition blank_graph :: json where
  "blank_graph =
     JObj [(''nodes'', JArr [JObj [(''name'', JStr ''Alice'')], JObj [(''name'', JStr [])],
                             JObj [(''name'', JStr ''Yoga'')]]),
           (''edges'', JArr [JObj [(''source'', JStr ''Alice''), (''target'', JStr ''Yoga''),
                                   (''type'', JStr ''practices'')]])]"

definition monday_edge :: json where
  "monday_edge = JObj [(''source'', JStr ''Alice''), (''target'', JStr ''Monday''),
                       (''type'', JStr ''happens_on'')]"

text \<open>Episode requests: one without content, one complete, and two with a reference time.\<close>

definition nameless_episode :: json where
  "nameless_episode = JObj [(''name'', JStr ''Ep2'')]"

definition plain_episode :: json where
  "plain_episode = JObj [(''name'', JStr ''Ep1''), (''content'', JStr ''x'')]"

definition undated_episode :: json where
  "undated_episode =
     JObj [(''name'', JStr ''Ep1''), (''content'', JStr ''x''), (''reference_time'', JStr [])]"

definition misdated_episode :: json where
  "misdated_episode =
     JObj [(''name'', JStr ''Ep3''), (''content'', JStr ''x''),
           (''reference_time'', JStr ''yesterday'')]"

definition missing_error :: json where
  "missing_error = JObj [(''error'', JStr ''Missing name or content for one episode'')]"

text \<open>A batch of three requests, and a search request.\<close>

definition mixed_batch :: json where
  "mixed_batch = JArr [plain_episode, nameless_episode, misdated_episode]"

definition yoga_query :: json where
  "yoga_query = JObj [(''query'', JStr ''who practices yoga'')]"

definition empty_world :: world where
  "empty_world = \<lparr>graph = \<lparr>gnodes = [], grels = []\<rparr>, calls = [], logs = []\<rparr>"

section \<open>The insert, read through its statements\<close>

lemma run_plan_append:
  "run_plan E (qs @ qs') w =
     (case run_plan E qs w of (Inl e, w1) \<Rightarrow> (Inl e, w1) | (Inr u, w1) \<Rightarrow> run_plan E qs' w1)"
  by (induction qs arbitrary: w) (auto split: sum.splits prod.splits)

lemma insert_nodes_plan:
  "insert_nodes E ep ns w =
     (case run_plan E (fst (nodes_plan ep ns)) w of
        (Inl e, w1) \<Rightarrow> (Inl e, w1)
      | (Inr u, w1) \<Rightarrow> (snd (nodes_plan ep ns), w1))"
  by (induction ns arbitrary: w) (auto split: sum.splits prod.splits)

lemma insert_edges_plan:
  "insert_edges E es w =
     (case run_plan E (fst (edges_plan es)) w of
        (Inl e, w1) \<Rightarrow> (Inl e, w1)
      | (Inr u, w1) \<Rightarrow> (snd (edges_plan es), w1))"
  by (induction es arbitrary: w) (auto split: sum.splits prod.splits bool.splits json.splits)

lemma insert_structured_graph_plan:
  "insert_structured_graph E sd ep w =
     (case run_plan E (fst (upsert_plan sd ep)) w of
        (Inl e, w1) \<Rightarrow> (Inl e, w1)
      | (Inr u, w1) \<Rightarrow> (snd (upsert_plan sd ep), w1))"
  unfolding insert_structured_graph_def upsert_plan_def
  by (auto simp: run_plan_append insert_nodes_plan insert_edges_plan split: sum.splits prod.splits)

text \<open>
  A run of statements either sends them all, or stops at the first one the driver
  raises on; that one is recorded as sent and changes nothing.
\<close>

lemma run_plan_cases:
  "(run_plan E qs w =
      (Inr (), w\<lparr>graph := fold apply_cypher qs (graph w), calls := calls w @ map CallRun qs\<rparr>)
    \<and> (\<forall>i<length qs. driver_fault E (length (calls w) + i) = None))
   \<or> (\<exists>j<length qs. \<exists>e. driver_fault E (length (calls w) + j) = Some e \<and>
        (\<forall>i<j. driver_fault E (length (calls w) + i) = None) \<and>
        run_plan E qs w =
          (Inl e, w\<lparr>graph := fold apply_cypher (take j qs) (graph w),
                    calls := calls w @ map CallRun (take (Suc j) qs)\<rparr>))"
proof (induction qs arbitrary: w)
  case Nil
  then show ?case by simp
next
  case (Cons q qs)
  show ?case
  proof (cases "driver_fault E (length (calls w))")
    case (Some e)
    then have "run_plan E (q # qs) w =
        (Inl e, w\<lparr>graph := fold apply_cypher (take 0 (q # qs)) (graph w),
                  calls := calls w @ map CallRun (take (Suc 0) (q # qs))\<rparr>)"
      by (simp add: session_run_def)
    with Some show ?thesis by (intro disjI2 exI[of _ 0]) auto
  next
    case None
    let ?w1 = "w\<lparr>graph := apply_cypher q (graph w), calls := calls w @ [CallRun q]\<rparr>"
    have step: "run_plan E (q # qs) w = run_plan E qs ?w1"
      using None by (simp add: session_run_def)
    from Cons.IH[of ?w1] show ?thesis
    proof (elim disjE conjE exE)
      assume a: "run_plan E qs ?w1 =
          (Inr (), ?w1\<lparr>graph := fold apply_cypher qs (graph ?w1),
                       calls := calls ?w1 @ map CallRun qs\<rparr>)"
        and b: "\<forall>i<length qs. driver_fault E (length (calls ?w1) + i) = None"
      have "\<forall>i<length (q # qs). driver_fault E (length (calls w) + i) = None"
      proof (intro allI impI)
        fix i assume "i < length (q # qs)"
        then show "driver_fault E (length (calls w) + i) = None"
          using None b by (cases i) auto
      qed
      with a step show ?thesis by (intro disjI1) simp
    next
      fix j e
      assume j: "j < length qs" and f: "driver_fault E (length (calls ?w1) + j) = Some e"
        and b: "\<forall>i<j. driver_fault E (length (calls ?w1) + i) = None"
        and a: "run_plan E qs ?w1 =
          (Inl e, ?w1\<lparr>graph := fold apply_cypher (take j qs) (graph ?w1),
                      calls := calls ?w1 @ map CallRun (take (Suc j) qs)\<rparr>)"
      have "\<forall>i<Suc j. driver_fault E (length (calls w) + i) = None"
      proof (intro allI impI)
        fix i assume "i < Suc j"
        then show "driver_fault E (length (calls w) + i) = None"
          using None b by (cases i) auto
      qed
      with a step f j show ?thesis
        by (intro disjI2 exI[of _ "Suc j"] exI[of _ e]) simp
    qed
  qed
qed

lemma run_plan_sent:
  "\<exists>j k. j \<le> k \<and> k \<le> length qs \<and> snd (run_plan E qs w) =
      w\<lparr>graph := fold apply_cypher (take j qs) (graph w),
        calls := calls w @ map CallRun (take k qs)\<rparr>"
  using run_plan_cases[of E qs w]
proof (elim disjE conjE exE)
  assume "run_plan E qs w =
      (Inr (), w\<lparr>graph := fold apply_cypher qs (graph w), calls := calls w @ map CallRun qs\<rparr>)"
  then show ?thesis
    by (intro exI[of _ "length qs"]) simp
next
  fix j e
  assume "j < length qs" "run_plan E qs w =
          (Inl e, w\<lparr>graph := fold apply_cypher (take j qs) (graph w),
                    calls := calls w @ map CallRun (take (Suc j) qs)\<rparr>)"
  then show ?thesis
    by (intro exI[of _ j] exI[of _ "Suc j"]) simp
qed

lemma set_fold_merge_rel: "set (fold merge_rel new rs) = set rs \<union> set new"
  by (induction new arbitrary: rs) (auto simp: merge_rel_def)

lemma fold_merge_rel_id: "set new \<subseteq> set rs \<Longrightarrow> fold merge_rel new rs = rs"
  by (induction new arbitrary: rs) (auto simp: merge_rel_def)

lemma fold_merge_rel_id_iff: "fold merge_rel new rs = rs \<longleftrightarrow> set new \<subseteq> set rs"
proof
  assume "fold merge_rel new rs = rs"
  then have "set (fold merge_rel new rs) = set rs" by simp
  then show "set new \<subseteq> set rs" by (auto simp: set_fold_merge_rel)
qed (rule fold_merge_rel_id)

lemma r_type_rels_between: "r \<in> set (rels_between t as bs) \<Longrightarrow> r_type r = t"
  by (auto simp: rels_between_def)

lemma match_nodes_snoc:
  "match_nodes lbl v (g\<lparr>gnodes := gnodes g @ [n]\<rparr>) =
     match_nodes lbl v g @ (if node_matches lbl v n then [length (gnodes g)] else [])"
proof -
  have "filter (\<lambda>i. node_matches lbl v ((gnodes g @ [n]) ! i)) [0..<length (gnodes g)] =
        filter (\<lambda>i. node_matches lbl v (gnodes g ! i)) [0..<length (gnodes g)]"
    by (rule filter_cong) (auto simp: nth_append)
  then show ?thesis by (simp add: match_nodes_def)
qed

lemma match_nodes_grels [simp]: "match_nodes lbl v (g\<lparr>grels := rs\<rparr>) = match_nodes lbl v g"
  by (simp add: match_nodes_def)

lemma apply_rel_settled_iff:
  "g\<lparr>grels := fold merge_rel new (grels g)\<rparr> = g \<longleftrightarrow> set new \<subseteq> set (grels g)"
proof
  assume "g\<lparr>grels := fold merge_rel new (grels g)\<rparr> = g"
  then have "grels (g\<lparr>grels := fold merge_rel new (grels g)\<rparr>) = grels g" by simp
  then show "set new \<subseteq> set (grels g)" by (simp add: fold_merge_rel_id_iff)
qed (simp add: fold_merge_rel_id)

lemma has_entity_apply: "has_entity v g \<Longrightarrow> has_entity v (apply_cypher q g)"
  by (cases q) (auto simp: has_entity_def match_nodes_snoc)

lemma grels_mono_apply: "set (grels g) \<subseteq> set (grels (apply_cypher q g))"
  by (cases q) (auto simp: set_fold_merge_rel)

lemma match_nodes_apply_rel:
  "is_typed q \<or> (\<exists>ep v. q = MergeMentions ep v) \<Longrightarrow>
     match_nodes lbl v (apply_cypher q g) = match_nodes lbl v g"
  by (cases q) auto

lemma match_entity_apply_other:
  "has_entity v g \<Longrightarrow> match_nodes ''Entity'' v (apply_cypher q g) = match_nodes ''Entity'' v g"
  by (cases q) (auto simp: has_entity_def match_nodes_snoc node_matches_def entity_node_def)

lemma match_episode_apply:
  "match_nodes ''Episode'' ep (apply_cypher q g) = match_nodes ''Episode'' ep g"
  by (cases q) (auto simp: match_nodes_snoc node_matches_def entity_node_def)

lemma firm_settled: "firm q g \<Longrightarrow> apply_cypher q g = g"
  by (cases q) (auto simp: has_entity_def)

lemma firm_keep: "\<not> is_typed q \<Longrightarrow> firm q g \<Longrightarrow> firm q (apply_cypher q' g)"
proof (cases q)
  case (MergeEntity v)
  then show "firm q g \<Longrightarrow> firm q (apply_cypher q' g)" by (simp add: has_entity_apply)
next
  case (MergeMentions ep v)
  assume f: "firm q g"
  then have he: "has_entity v g" and st: "apply_cypher (MergeMentions ep v) g = g"
    using MergeMentions by auto
  from st have sub: "set (rels_between ''MENTIONS'' (match_nodes ''Episode'' ep g)
      (match_nodes ''Entity'' v g)) \<subseteq> set (grels g)"
    by (simp add: apply_rel_settled_iff)
  have "set (rels_between ''MENTIONS'' (match_nodes ''Episode'' ep (apply_cypher q' g))
      (match_nodes ''Entity'' v (apply_cypher q' g))) \<subseteq> set (grels (apply_cypher q' g))"
    using sub grels_mono_apply[of g q'] by (simp add: match_entity_apply_other[OF he] match_episode_apply)
  then show "firm q (apply_cypher q' g)"
    using MergeMentions he by (simp add: has_entity_apply apply_rel_settled_iff)
next
  case (MergeTyped t a b)
  assume "\<not> is_typed q"
  then show "firm q (apply_cypher q' g)" using MergeTyped by simp
qed

lemma firm_keep_fold: "\<not> is_typed q \<Longrightarrow> firm q g \<Longrightarrow> firm q (fold apply_cypher qs g)"
  by (induction qs arbitrary: g) (simp_all add: firm_keep del: firm.simps)

lemma typed_keep:
  assumes "is_typed q'" "firm (MergeTyped t a b) g"
  shows "firm (MergeTyped t a b) (apply_cypher q' g)"
proof -
  from assms(2) have sub: "set (rels_between t (match_nodes ''Entity'' a g)
      (match_nodes ''Entity'' b g)) \<subseteq> set (grels g)"
    by (simp add: apply_rel_settled_iff)
  have "set (rels_between t (match_nodes ''Entity'' a (apply_cypher q' g))
      (match_nodes ''Entity'' b (apply_cypher q' g))) \<subseteq> set (grels (apply_cypher q' g))"
    using sub grels_mono_apply[of g q'] assms(1) by (simp add: match_nodes_apply_rel)
  then show ?thesis by (simp add: apply_rel_settled_iff)
qed

lemma typed_keep_fold:
  "\<forall>q'\<in>set qs. is_typed q' \<Longrightarrow> firm (MergeTyped t a b) g \<Longrightarrow>
     firm (MergeTyped t a b) (fold apply_cypher qs g)"
  by (induction qs arbitrary: g) (simp_all add: typed_keep del: firm.simps)

lemma firm_after_entity: "v \<noteq> JNull \<Longrightarrow> firm (MergeEntity v) (apply_cypher (MergeEntity v) g)"
  by (auto simp: has_entity_def match_nodes_snoc node_matches_def entity_node_def)

lemma fold_merge_rel_twice:
  "fold merge_rel new (fold merge_rel new rs) = fold merge_rel new rs"
  by (rule fold_merge_rel_id) (simp add: set_fold_merge_rel)

lemma firm_after_typed: "firm (MergeTyped t a b) (apply_cypher (MergeTyped t a b) g)"
  by (simp add: fold_merge_rel_twice)

lemma firm_after_mentions:
  "has_entity v g \<Longrightarrow> firm (MergeMentions ep v) (apply_cypher (MergeMentions ep v) g)"
  by (simp add: fold_merge_rel_twice has_entity_def)


lemma py_truthy_not_null: "py_truthy v \<Longrightarrow> v \<noteq> JNull"
  by auto

lemma nodes_plan_not_typed: "q \<in> set (fst (nodes_plan ep ns)) \<Longrightarrow> \<not> is_typed q"
  by (induction ns) (auto split: sum.splits if_splits)

lemma nodes_plan_truthy:
  "MergeEntity v \<in> set (fst (nodes_plan ep ns)) \<Longrightarrow> py_truthy v"
  by (induction ns) (auto split: sum.splits if_splits)

lemma nodes_plan_no_typed_stmt: "MergeTyped t a b \<notin> set (fst (nodes_plan ep ns))"
  using nodes_plan_not_typed[of "MergeTyped t a b" ep ns] by auto

lemma edges_plan_typed: "q \<in> set (fst (edges_plan es)) \<Longrightarrow> is_typed q"
  by (induction es) (auto split: sum.splits if_splits bool.splits json.splits)

lemma edges_plan_allowed:
  "MergeTyped t a b \<in> set (fst (edges_plan es)) \<Longrightarrow> t \<in> ALLOWED_RELATION_TYPES"
  by (induction es) (auto split: sum.splits if_splits bool.splits json.splits)

lemma nodes_plan_firm:
  "q \<in> set (fst (nodes_plan ep ns)) \<Longrightarrow> firm q (fold apply_cypher (fst (nodes_plan ep ns)) g)"
proof (induction ns arbitrary: g)
  case Nil
  then show ?case by simp
next
  case (Cons node rest)
  show ?case
  proof (cases "py_get node ''name'' JNull")
    case (Inl e)
    with Cons.prems show ?thesis by simp
  next
    case (Inr name)
    show ?thesis
    proof (cases "py_truthy name")
      case False
      with Inr Cons show ?thesis by simp
    next
      case True
      let ?qs = "fst (nodes_plan ep rest)"
      let ?g1 = "apply_cypher (MergeEntity name) g"
      let ?g2 = "apply_cypher (MergeMentions ep name) ?g1"
      have plan: "fst (nodes_plan ep (node # rest)) = MergeEntity name # MergeMentions ep name # ?qs"
        using Inr True by simp
      have f1: "firm (MergeEntity name) ?g1"
        using True by (intro firm_after_entity) auto
      then have he: "has_entity name ?g1" by simp
      have f2: "firm (MergeMentions ep name) ?g2"
        using he by (rule firm_after_mentions)
      have f1': "firm (MergeEntity name) ?g2"
        using firm_keep[OF _ f1, of "MergeMentions ep name"] by simp
      from Cons.prems plan
      consider "q = MergeEntity name" | "q = MergeMentions ep name" | "q \<in> set ?qs" by auto
      then have "firm q (fold apply_cypher ?qs ?g2)"
      proof cases
        case 1
        then show ?thesis using firm_keep_fold[OF _ f1', of ?qs] by simp
      next
        case 2
        then show ?thesis using firm_keep_fold[OF _ f2, of ?qs] by simp
      next
        case 3
        then show ?thesis by (rule Cons.IH)
      qed
      then show ?thesis by (simp only: plan fold_simps)
    qed
  qed
qed

lemma typed_fold_firm:
  "\<forall>q'\<in>set qs. is_typed q' \<Longrightarrow> q \<in> set qs \<Longrightarrow> firm q (fold apply_cypher qs g)"
proof (induction qs arbitrary: g)
  case Nil
  then show ?case by simp
next
  case (Cons q0 qs)
  from Cons.prems(1) obtain t a b where q0: "q0 = MergeTyped t a b"
    by (cases q0) auto
  show ?case
  proof (cases "q \<in> set qs")
    case True
    then have "firm q (fold apply_cypher qs (apply_cypher q0 g))"
      using Cons.prems(1) by (intro Cons.IH) auto
    then show ?thesis by (simp del: firm.simps)
  next
    case False
    with Cons.prems(2) have "q = q0" by simp
    moreover have "firm (MergeTyped t a b) (fold apply_cypher qs (apply_cypher (MergeTyped t a b) g))"
      using Cons.prems(1) by (intro typed_keep_fold firm_after_typed) auto
    ultimately show ?thesis using q0 by (simp del: firm.simps)
  qed
qed

lemma both_plans_firm:
  assumes "q \<in> set (fst (nodes_plan ep ns) @ fst (edges_plan es))"
  shows "firm q (fold apply_cypher (fst (nodes_plan ep ns) @ fst (edges_plan es)) g)"
proof (cases "q \<in> set (fst (nodes_plan ep ns))")
  case True
  then have "firm q (fold apply_cypher (fst (nodes_plan ep ns)) g)"
    by (rule nodes_plan_firm)
  then have "firm q (fold apply_cypher (fst (edges_plan es)) (fold apply_cypher (fst (nodes_plan ep ns)) g))"
    by (rule firm_keep_fold[OF nodes_plan_not_typed[OF True]])
  then show ?thesis by (simp del: firm.simps)
next
  case False
  with assms have "q \<in> set (fst (edges_plan es))" by simp
  then have "firm q (fold apply_cypher (fst (edges_plan es)) (fold apply_cypher (fst (nodes_plan ep ns)) g))"
    by (intro typed_fold_firm ballI edges_plan_typed)
  then show ?thesis by (simp del: firm.simps)
qed

lemma upsert_plan_shape:
  "fst (upsert_plan sd ep) = [] \<or>
   (\<exists>ns. fst (upsert_plan sd ep) = fst (nodes_plan ep ns)) \<or>
   (\<exists>ns es. fst (upsert_plan sd ep) = fst (nodes_plan ep ns) @ fst (edges_plan es))"
  by (auto simp: upsert_plan_def split: sum.splits)

lemma upsert_plan_firm:
  assumes "q \<in> set (fst (upsert_plan sd ep))"
  shows "firm q (fold apply_cypher (fst (upsert_plan sd ep)) g)"
  using upsert_plan_shape[of sd ep]
proof (elim disjE exE)
  assume "fst (upsert_plan sd ep) = []"
  with assms show ?thesis by simp
next
  fix ns assume "fst (upsert_plan sd ep) = fst (nodes_plan ep ns)"
  with assms show ?thesis by (simp only: nodes_plan_firm)
next
  fix ns es assume "fst (upsert_plan sd ep) = fst (nodes_plan ep ns) @ fst (edges_plan es)"
  with assms show ?thesis by (simp only: both_plans_firm)
qed

lemma fold_settled:
  "\<forall>q\<in>set qs. apply_cypher q g = g \<Longrightarrow> fold apply_cypher qs g = g"
  by (induction qs) auto

lemma upsert_plan_replay:
  "fold apply_cypher (take j (fst (upsert_plan sd ep)))
     (fold apply_cypher (fst (upsert_plan sd ep)) g) =
   fold apply_cypher (fst (upsert_plan sd ep)) g"
proof (rule fold_settled, rule ballI)
  fix q assume "q \<in> set (take j (fst (upsert_plan sd ep)))"
  then have "q \<in> set (fst (upsert_plan sd ep))" by (rule in_set_takeD)
  then show "apply_cypher q (fold apply_cypher (fst (upsert_plan sd ep)) g) =
             fold apply_cypher (fst (upsert_plan sd ep)) g"
    by (intro firm_settled upsert_plan_firm)
qed

lemma snd_insert_structured_graph:
  "snd (insert_structured_graph E sd ep w) = snd (run_plan E (fst (upsert_plan sd ep)) w)"
  by (simp add: insert_structured_graph_plan split: prod.splits sum.splits)

section \<open>Running the insert twice\<close>

text \<open>
  C2. Running the insert a second time with the same structured graph and the same
  episode name leaves the store as the first run left it: the same list of nodes and the
  same list of relationships, so no Entity node, no MENTIONS edge and no typed edge is
  added. The first run is one in which the driver raised on none of the statements sent
  (the insert may still have ended on an error of its own, on a malformed entry); the
  second run may be cut short by the driver anywhere, and may start from any world that
  holds the store the first run left.
\<close>

theorem upsert_twice_same_store:
  assumes first: "insert_structured_graph E sd ep w = (r1, w1)"
      and no_fault: "\<forall>k. length (calls w) \<le> k \<and> k < length (calls w1) \<longrightarrow> driver_fault E k = None"
      and same: "graph w2 = graph w1"
  shows "graph (snd (insert_structured_graph E2 sd ep w2)) = graph w1"
proof -
  let ?qs = "fst (upsert_plan sd ep)"
  have w1: "snd (run_plan E ?qs w) = w1"
    using first snd_insert_structured_graph[of E sd ep w] by simp
  have g1: "graph w1 = fold apply_cypher ?qs (graph w)"
    using run_plan_cases[of E ?qs w]
  proof (elim disjE conjE exE)
    assume "run_plan E ?qs w =
      (Inr (), w\<lparr>graph := fold apply_cypher ?qs (graph w), calls := calls w @ map CallRun ?qs\<rparr>)"
    with w1 show ?thesis by auto
  next
    fix j e
    assume j: "j < length ?qs" and f: "driver_fault E (length (calls w) + j) = Some e"
      and r: "run_plan E ?qs w =
          (Inl e, w\<lparr>graph := fold apply_cypher (take j ?qs) (graph w),
                    calls := calls w @ map CallRun (take (Suc j) ?qs)\<rparr>)"
    from r w1 have "calls w1 = calls w @ map CallRun (take (Suc j) ?qs)" by auto
    then have "length (calls w1) = length (calls w) + Suc j" using j by simp
    with no_fault have "driver_fault E (length (calls w) + j) = None" by simp
    with f show ?thesis by simp
  qed
  obtain j k where "snd (run_plan E2 ?qs w2) =
      w2\<lparr>graph := fold apply_cypher (take j ?qs) (graph w2),
         calls := calls w2 @ map CallRun (take k ?qs)\<rparr>"
    using run_plan_sent[of ?qs E2 w2] by blast
  then have "graph (snd (run_plan E2 ?qs w2)) = fold apply_cypher (take j ?qs) (graph w1)"
    using same by simp
  also have "\<dots> = graph w1"
    unfolding g1 by (rule upsert_plan_replay)
  finally show ?thesis
    by (simp only: snd_insert_structured_graph)
qed

lemma yoga_first_run:
  "insert_structured_graph quiet_env yoga_graph (JStr ''Ep1'') ep1_world = (Inr (), yoga_world)"
  by code_simp

lemma quiet_env_no_fault: "driver_fault quiet_env k = None"
  by (simp add: quiet_env_def)

theorem upsert_twice_same_store_witness:
  "insert_structured_graph quiet_env yoga_graph (JStr ''Ep1'') ep1_world = (Inr (), yoga_world) \<and>
   graph (snd (insert_structured_graph quiet_env yoga_graph (JStr ''Ep1'') yoga_world)) =
     graph yoga_world"
  using upsert_twice_same_store[OF yoga_first_run _ refl, of quiet_env] yoga_first_run
  by (simp add: quiet_env_no_fault)

lemma gnodes_apply_cypher:
  "gnodes (apply_cypher q g) = gnodes g \<or>
   (\<exists>v. q = MergeEntity v \<and> gnodes (apply_cypher q g) = gnodes g @ [entity_node v])"
  by (cases q) auto

lemma grels_apply_cypher:
  "r \<in> set (grels (apply_cypher q g)) \<Longrightarrow> r \<notin> set (grels g) \<Longrightarrow>
     (\<exists>ep v. q = MergeMentions ep v \<and> r_type r = ''MENTIONS'') \<or>
     (\<exists>t a b. q = MergeTyped t a b \<and> r_type r = t)"
  by (cases q) (auto simp: set_fold_merge_rel dest: r_type_rels_between split: if_splits)

lemma fold_new_rel:
  "r \<in> set (grels (fold apply_cypher qs g)) \<Longrightarrow>
     r \<in> set (grels g) \<or> r_type r = ''MENTIONS'' \<or>
     (\<exists>t a b. MergeTyped t a b \<in> set qs \<and> r_type r = t)"
proof (induction qs arbitrary: g)
  case Nil
  then show ?case by simp
next
  case (Cons q qs)
  from Cons.prems have "r \<in> set (grels (fold apply_cypher qs (apply_cypher q g)))" by simp
  from Cons.IH[OF this] show ?case
  proof (elim disjE)
    assume "r \<in> set (grels (apply_cypher q g))"
    then show ?thesis using grels_apply_cypher[of r q g] by auto
  qed auto
qed

lemma fold_new_nodes:
  "\<exists>vs. gnodes (fold apply_cypher qs g) = gnodes g @ map entity_node vs \<and>
        (\<forall>v\<in>set vs. MergeEntity v \<in> set qs)"
proof (induction qs arbitrary: g)
  case Nil
  show ?case by (intro exI[of _ "[]"]) simp
next
  case (Cons q qs)
  from Cons.IH[of "apply_cypher q g"] obtain vs where
    vs: "gnodes (fold apply_cypher qs (apply_cypher q g)) = gnodes (apply_cypher q g) @ map entity_node vs"
        "\<forall>v\<in>set vs. MergeEntity v \<in> set qs" by blast
  from gnodes_apply_cypher[of q g] show ?case
  proof (elim disjE exE conjE)
    assume "gnodes (apply_cypher q g) = gnodes g"
    with vs show ?thesis by (intro exI[of _ vs]) auto
  next
    fix v assume "q = MergeEntity v" "gnodes (apply_cypher q g) = gnodes g @ [entity_node v]"
    with vs show ?thesis by (intro exI[of _ "v # vs"]) auto
  qed
qed

lemma upsert_plan_allowed:
  "MergeTyped t a b \<in> set (fst (upsert_plan sd ep)) \<Longrightarrow> t \<in> ALLOWED_RELATION_TYPES"
  by (auto simp: upsert_plan_def nodes_plan_no_typed_stmt edges_plan_allowed split: sum.splits)

lemma edges_plan_no_entity: "MergeEntity v \<notin> set (fst (edges_plan es))"
  using edges_plan_typed[of "MergeEntity v" es] by auto

lemma upsert_plan_truthy:
  "MergeEntity v \<in> set (fst (upsert_plan sd ep)) \<Longrightarrow> py_truthy v"
  by (auto simp: upsert_plan_def edges_plan_no_entity dest: nodes_plan_truthy split: sum.splits)

section \<open>What the insert writes\<close>

text \<open>
  C1. Whatever structured graph \<^verbatim>\<open>insert_structured_graph\<close> is given, and however the
  driver behaves, every typed-relationship statement it sends carries a type of
  \<open>ALLOWED_RELATION_TYPES\<close>, and every relationship that is in the store afterwards and
  was not there before is either a MENTIONS provenance edge or has a type of
  \<open>ALLOWED_RELATION_TYPES\<close>: an edge of any other type is never written.
\<close>

theorem insert_writes_vocabulary_only:
  assumes "insert_structured_graph E structured_data episode_name w = (res, w')"
  shows "(\<forall>t a b. CallRun (MergeTyped t a b) \<in> set (drop (length (calls w)) (calls w')) \<longrightarrow>
            t \<in> ALLOWED_RELATION_TYPES) \<and>
         (\<forall>r\<in>set (grels (graph w')).
            r \<in> set (grels (graph w)) \<or> r_type r = ''MENTIONS'' \<or>
            r_type r \<in> ALLOWED_RELATION_TYPES)"
proof -
  let ?qs = "fst (upsert_plan structured_data episode_name)"
  have w': "w' = snd (run_plan E ?qs w)"
    using assms snd_insert_structured_graph[of E structured_data episode_name w] by simp
  obtain j k where jk: "w' = w\<lparr>graph := fold apply_cypher (take j ?qs) (graph w),
         calls := calls w @ map CallRun (take k ?qs)\<rparr>"
    using run_plan_sent[of ?qs E w] w' by auto
  have sent: "\<forall>t a b. CallRun (MergeTyped t a b) \<in> set (drop (length (calls w)) (calls w')) \<longrightarrow>
            t \<in> ALLOWED_RELATION_TYPES"
  proof (intro allI impI)
    fix t a b assume "CallRun (MergeTyped t a b) \<in> set (drop (length (calls w)) (calls w'))"
    then have "MergeTyped t a b \<in> set (take k ?qs)" using jk by auto
    then have "MergeTyped t a b \<in> set ?qs" by (rule in_set_takeD)
    then show "t \<in> ALLOWED_RELATION_TYPES" by (rule upsert_plan_allowed)
  qed
  have stored: "\<forall>r\<in>set (grels (graph w')).
            r \<in> set (grels (graph w)) \<or> r_type r = ''MENTIONS'' \<or>
            r_type r \<in> ALLOWED_RELATION_TYPES"
  proof
    fix r assume "r \<in> set (grels (graph w'))"
    then have "r \<in> set (grels (fold apply_cypher (take j ?qs) (graph w)))" using jk by simp
    from fold_new_rel[OF this] show "r \<in> set (grels (graph w)) \<or> r_type r = ''MENTIONS'' \<or>
            r_type r \<in> ALLOWED_RELATION_TYPES"
      by (auto dest!: in_set_takeD upsert_plan_allowed)
  qed
  from sent stored show ?thesis by blast
qed

lemma yoga_world_facts:
  "CallRun (MergeTyped ''practices'' (JStr ''Alice'') (JStr ''Yoga''))
     \<in> set (drop (length (calls ep1_world)) (calls yoga_world))"
  "\<lparr>r_src = 1, r_type = ''practices'', r_dst = 2\<rparr> \<in> set (grels (graph yoga_world))"
  "\<lparr>r_src = 1, r_type = ''practices'', r_dst = 2\<rparr> \<notin> set (grels (graph ep1_world))"
  by code_simp+

theorem insert_writes_vocabulary_only_witness:
  "insert_structured_graph quiet_env yoga_graph (JStr ''Ep1'') ep1_world = (Inr (), yoga_world) \<and>
   CallRun (MergeTyped ''practices'' (JStr ''Alice'') (JStr ''Yoga''))
     \<in> set (drop (length (calls ep1_world)) (calls yoga_world)) \<and>
   \<lparr>r_src = 1, r_type = ''practices'', r_dst = 2\<rparr> \<in> set (grels (graph yoga_world)) \<and>
   \<lparr>r_src = 1, r_type = ''practices'', r_dst = 2\<rparr> \<notin> set (grels (graph ep1_world)) \<and>
   ''practices'' \<in> ALLOWED_RELATION_TYPES"
  using insert_writes_vocabulary_only[OF yoga_first_run] yoga_first_run yoga_world_facts
  by blast

lemma nodes_plan_skip:
  assumes "py_get node ''name'' JNull = Inr name" "\<not> py_truthy name"
  shows "nodes_plan ep (xs @ node # ys) = nodes_plan ep (xs @ ys)"
  using assms by (induction xs) (auto split: sum.splits)

lemma map_of_obj_update: "map_of (obj_update k v kv) = (map_of kv)(k \<mapsto> v)"
  by (induction kv) auto

lemma upsert_plan_skip:
  assumes "py_get sd ''nodes'' (JArr []) = Inr (JArr (xs @ node # ys))"
      and "py_get node ''name'' JNull = Inr name" and "\<not> py_truthy name"
  shows "upsert_plan (py_setitem sd ''nodes'' (JArr (xs @ ys))) ep = upsert_plan sd ep"
proof (cases sd)
  case (JObj kv)
  have n: "map_of kv ''nodes'' = Some (JArr (xs @ node # ys))"
    using assms(1) JObj by (auto split: option.splits)
  show ?thesis
    using n nodes_plan_skip[OF assms(2,3), of ep xs ys]
    by (simp add: JObj upsert_plan_def map_of_obj_update split: sum.splits)
qed (use assms(1) in auto)

text \<open>
  C10. A node entry whose \<open>name\<close> is missing, null or empty (any value Python takes
  for false) is skipped: the insert does exactly what it does on the same structured
  graph without that entry, result, store, statements sent and log alike, so no Entity
  node and no MENTIONS edge is written for it and every other node and edge is handled
  as before. The nodes the insert adds to the store are Entity nodes whose names are all
  truthy, hence none is empty.
\<close>

theorem nameless_node_is_skipped:
  assumes "py_get structured_data ''nodes'' (JArr []) = Inr (JArr (xs @ node # ys))"
      and "py_get node ''name'' JNull = Inr name" and "\<not> py_truthy name"
  shows "insert_structured_graph E structured_data episode_name w =
           insert_structured_graph E (py_setitem structured_data ''nodes'' (JArr (xs @ ys)))
             episode_name w \<and>
         (\<exists>names. gnodes (graph (snd (insert_structured_graph E structured_data episode_name w))) =
                     gnodes (graph w) @ map entity_node names \<and>
                   (\<forall>v\<in>set names. py_truthy v))"
proof
  show "insert_structured_graph E structured_data episode_name w =
           insert_structured_graph E (py_setitem structured_data ''nodes'' (JArr (xs @ ys)))
             episode_name w"
    by (simp only: insert_structured_graph_plan upsert_plan_skip[OF assms])
next
  let ?qs = "fst (upsert_plan structured_data episode_name)"
  obtain j k where "snd (run_plan E ?qs w) =
      w\<lparr>graph := fold apply_cypher (take j ?qs) (graph w),
        calls := calls w @ map CallRun (take k ?qs)\<rparr>"
    using run_plan_sent[of ?qs E w] by blast
  then have g: "graph (snd (insert_structured_graph E structured_data episode_name w)) =
      fold apply_cypher (take j ?qs) (graph w)"
    by (simp add: snd_insert_structured_graph)
  obtain vs where vs: "gnodes (fold apply_cypher (take j ?qs) (graph w)) =
        gnodes (graph w) @ map entity_node vs" "\<forall>v\<in>set vs. MergeEntity v \<in> set (take j ?qs)"
    using fold_new_nodes[of "take j ?qs" "graph w"] by blast
  have "\<forall>v\<in>set vs. py_truthy v"
    using vs(2) by (auto dest!: in_set_takeD upsert_plan_truthy)
  with vs(1) g show "\<exists>names. gnodes (graph (snd (insert_structured_graph E structured_data episode_name w))) =
                     gnodes (graph w) @ map entity_node names \<and>
                   (\<forall>v\<in>set names. py_truthy v)"
    by auto
qed

lemma blank_graph_facts:
  "py_get blank_graph ''nodes'' (JArr []) =
     Inr (JArr ([JObj [(''name'', JStr ''Alice'')]] @ JObj [(''name'', JStr [])] #
                [JObj [(''name'', JStr ''Yoga'')]]))"
  "py_get (JObj [(''name'', JStr [])]) ''name'' JNull = Inr (JStr [])"
  "\<not> py_truthy (JStr [])"
  "insert_structured_graph quiet_env
     (py_setitem blank_graph ''nodes''
        (JArr ([JObj [(''name'', JStr ''Alice'')]] @ [JObj [(''name'', JStr ''Yoga'')]])))
     (JStr ''Ep1'') ep1_world = (Inr (), yoga_world)"
  "gnodes (graph yoga_world) =
     gnodes (graph ep1_world) @ map entity_node [JStr ''Alice'', JStr ''Yoga'']"
  by code_simp+

theorem nameless_node_is_skipped_witness:
  "insert_structured_graph quiet_env blank_graph (JStr ''Ep1'') ep1_world = (Inr (), yoga_world) \<and>
   gnodes (graph yoga_world) =
     gnodes (graph ep1_world) @ map entity_node [JStr ''Alice'', JStr ''Yoga'']"
  using nameless_node_is_skipped[OF blank_graph_facts(1,2,3), of quiet_env "JStr ''Ep1''" ep1_world]
    blank_graph_facts(4,5)
  by simp

lemma product_Nil_right: "List.product xs [] = []"
  by (induction xs) auto

text \<open>
  C5. An edge whose type is in the vocabulary is written by one statement that matches
  both endpoint Entities first. When the driver does not raise on it, the loop goes on
  with the remaining edges after it. If the source or the target entity is absent, the
  statement matches nothing and leaves the store as it was: only this edge is lost, and
  the writes before and after it are those of the graph without it. If both are
  present, a relationship of that type between a source node and a target node is in
  the store afterwards.
\<close>

theorem edge_needs_both_endpoints:
  assumes "py_get edge ''source'' JNull = Inr a"
      and "py_get edge ''target'' JNull = Inr b"
      and "py_get edge ''type'' JNull = Inr (JStr t)"
      and "t \<in> ALLOWED_RELATION_TYPES"
      and "driver_fault E (length (calls w)) = None"
  shows "insert_edges E (edge # rest) w =
           insert_edges E rest
             (w\<lparr>graph := apply_cypher (MergeTyped t a b) (graph w),
                calls := calls w @ [CallRun (MergeTyped t a b)]\<rparr>) \<and>
         (\<not> has_entity a (graph w) \<or> \<not> has_entity b (graph w) \<longrightarrow>
            apply_cypher (MergeTyped t a b) (graph w) = graph w) \<and>
         (has_entity a (graph w) \<and> has_entity b (graph w) \<longrightarrow>
            (\<exists>i j. i \<in> set (match_nodes ''Entity'' a (graph w)) \<and>
                   j \<in> set (match_nodes ''Entity'' b (graph w)) \<and>
                   \<lparr>r_src = i, r_type = t, r_dst = j\<rparr>
                     \<in> set (grels (apply_cypher (MergeTyped t a b) (graph w)))))"
proof (intro conjI impI)
  show "insert_edges E (edge # rest) w =
           insert_edges E rest
             (w\<lparr>graph := apply_cypher (MergeTyped t a b) (graph w),
                calls := calls w @ [CallRun (MergeTyped t a b)]\<rparr>)"
    using assms by (simp add: session_run_def del: apply_cypher.simps)
next
  assume "\<not> has_entity a (graph w) \<or> \<not> has_entity b (graph w)"
  then show "apply_cypher (MergeTyped t a b) (graph w) = graph w"
    by (auto simp: has_entity_def rels_between_def product_Nil_right)
next
  assume "has_entity a (graph w) \<and> has_entity b (graph w)"
  then obtain i j where i: "i \<in> set (match_nodes ''Entity'' a (graph w))"
    and j: "j \<in> set (match_nodes ''Entity'' b (graph w))"
    unfolding has_entity_def by (meson last_in_set)
  have "\<lparr>r_src = i, r_type = t, r_dst = j\<rparr> \<in>
      set (rels_between t (match_nodes ''Entity'' a (graph w)) (match_nodes ''Entity'' b (graph w)))"
    using i j by (force simp: rels_between_def)
  then have "\<lparr>r_src = i, r_type = t, r_dst = j\<rparr>
      \<in> set (grels (apply_cypher (MergeTyped t a b) (graph w)))"
    by (simp add: set_fold_merge_rel)
  with i j show "\<exists>i j. i \<in> set (match_nodes ''Entity'' a (graph w)) \<and>
                   j \<in> set (match_nodes ''Entity'' b (graph w)) \<and>
                   \<lparr>r_src = i, r_type = t, r_dst = j\<rparr>
                     \<in> set (grels (apply_cypher (MergeTyped t a b) (graph w)))"
    by blast
qed

lemma monday_edge_facts:
  "py_get monday_edge ''source'' JNull = Inr (JStr ''Alice'')"
  "py_get monday_edge ''target'' JNull = Inr (JStr ''Monday'')"
  "py_get monday_edge ''type'' JNull = Inr (JStr ''happens_on'')"
  "''happens_on'' \<in> ALLOWED_RELATION_TYPES"
  "driver_fault quiet_env (length (calls yoga_world)) = None"
  "\<not> has_entity (JStr ''Monday'') (graph yoga_world)"
  "insert_edges quiet_env [] (yoga_world\<lparr>graph := graph yoga_world, calls := calls yoga_world @
      [CallRun (MergeTyped ''happens_on'' (JStr ''Alice'') (JStr ''Monday''))]\<rparr>) =
   (Inr (), yoga_world\<lparr>calls := calls yoga_world @
      [CallRun (MergeTyped ''happens_on'' (JStr ''Alice'') (JStr ''Monday''))]\<rparr>)"
  by code_simp+

theorem edge_needs_both_endpoints_witness:
  "\<not> has_entity (JStr ''Monday'') (graph yoga_world) \<and>
   insert_edges quiet_env [monday_edge] yoga_world =
     (Inr (), yoga_world\<lparr>calls := calls yoga_world @
        [CallRun (MergeTyped ''happens_on'' (JStr ''Alice'') (JStr ''Monday''))]\<rparr>)"
  using edge_needs_both_endpoints[OF monday_edge_facts(1,2,3,4,5), of "[]"] monday_edge_facts(6,7)
  by simp

lemma py_get_obj: "py_get ep k d = Inr v \<Longrightarrow> \<exists>kv. ep = JObj kv"
  by (cases ep) auto

section \<open>One episode of a batch\<close>

text \<open>
  C6. An episode request whose name or content is missing or empty (falsy) gets the
  outcome \<^verbatim>\<open>{"error": "Missing name or content for one episode"}\<close> and leaves the world
  as it was: the record of calls is unchanged, so neither the episode write, nor the LLM,
  nor the graph store was called for it, and the store and the log are the same.
\<close>

theorem missing_field_fails_episode:
  assumes "py_get ep ''name'' JNull = Inr name"
      and "py_get ep ''content'' JNull = Inr content"
      and "\<not> py_truthy name \<or> \<not> py_truthy content"
  shows "process_episode E ep results w =
           (Inr (results @ [JObj [(''error'', JStr ''Missing name or content for one episode'')]]), w)"
proof -
  from assms(1) obtain kv where "ep = JObj kv" by (auto dest: py_get_obj)
  with assms show ?thesis
    by (auto simp: process_episode_def)
qed

lemma nameless_episode_facts:
  "py_get nameless_episode ''name'' JNull = Inr (JStr ''Ep2'')"
  "py_get nameless_episode ''content'' JNull = Inr JNull"
  "\<not> py_truthy JNull"
  by code_simp+

theorem missing_field_fails_episode_witness:
  "process_episode quiet_env nameless_episode [] empty_world =
     (Inr [JObj [(''error'', JStr ''Missing name or content for one episode'')]], empty_world)"
  using missing_field_fails_episode[OF nameless_episode_facts(1,2), of quiet_env "[]" empty_world]
    nameless_episode_facts(3)
  by simp

lemma extract_calls:
  "calls (snd (extract_structured_json E t w)) =
     calls w @ [CallCompletion (extraction_prompt (py_str E t))]"
  by (auto simp: extract_structured_json_def Let_def split: sum.splits exn.splits)

lemma insert_calls: "\<exists>cs. calls (snd (insert_structured_graph E sd ep w)) = calls w @ cs"
proof -
  obtain j k where "snd (run_plan E (fst (upsert_plan sd ep)) w) =
      w\<lparr>graph := fold apply_cypher (take j (fst (upsert_plan sd ep))) (graph w),
        calls := calls w @ map CallRun (take k (fst (upsert_plan sd ep)))\<rparr>"
    using run_plan_sent[of "fst (upsert_plan sd ep)" E w] by blast
  then show ?thesis by (simp add: snd_insert_structured_graph)
qed

lemma add_and_extract_calls:
  "\<exists>cs. calls (snd (add_and_extract E n c d t w)) = calls w @ CallAddEpisode n c d t # cs"
proof (cases "graphiti_add_episode E (length (calls w)) n c d t (graph w)")
  case (Pair eo g1)
  let ?w1 = "w\<lparr>graph := g1, calls := calls w @ [CallAddEpisode n c d t]\<rparr>"
  show ?thesis
  proof (cases eo)
    case (Some e)
    with Pair show ?thesis by (simp add: add_and_extract_def)
  next
    case None
    obtain r w2 where x: "extract_structured_json E c ?w1 = (r, w2)" by (cases "extract_structured_json E c ?w1")
    then have c2: "calls w2 = calls ?w1 @ [CallCompletion (extraction_prompt (py_str E c))]"
      using extract_calls[of E c ?w1] by simp
    show ?thesis
    proof (cases r)
      case (Inl e)
      with Pair None x c2 show ?thesis by (simp add: add_and_extract_def)
    next
      case (Inr sj)
      obtain cs where cs: "calls (snd (insert_structured_graph E sj n w2)) = calls w2 @ cs"
        using insert_calls by blast
      show ?thesis
        using Pair None x c2 Inr cs
        by (cases "insert_structured_graph E sj n w2")
           (auto simp: add_and_extract_def split: sum.splits)
    qed
  qed
qed

text \<open>
  C7, as stated, fails on an empty reference time: the string \<^verbatim>\<open>""\<close> is supplied and
  is not ISO-8601, yet \<^verbatim>\<open>if reference_time:\<close> takes it for absent, and the episode is
  written with the current time and succeeds.
\<close>

theorem empty_reference_time_counterexample:
  "py_get undated_episode ''reference_time'' JNull = Inr (JStr []) \<and>
   fromisoformat quiet_env [] = None \<and>
   fst (process_episode quiet_env undated_episode [] empty_world) =
     Inr [JObj [(''name'', JStr ''Ep1''), (''message'', JStr ''Episode added successfully''),
                (''structured'', JObj [])]] \<and>
   take 2 (calls (snd (process_episode quiet_env undated_episode [] empty_world))) =
     [CallNow, CallAddEpisode (JStr ''Ep1'') (JStr ''x'') (JStr []) (utc_now quiet_env 0)]"
  by code_simp

text \<open>
  C7, amended. For a request with a name and a content: if its reference time is truthy
  (so not empty) and cannot be parsed, the outcome is the error
  \<^verbatim>\<open>Invalid reference_time for episode: <name>\<close> and nothing happened for the episode but
  the reading of the clock; if its reference time is absent, null or empty, the episode
  write is the next call after the reading of the clock, and it is given the time that
  was read.
\<close>

theorem reference_time_handling:
  assumes "py_get ep ''name'' JNull = Inr name"
      and "py_get ep ''content'' JNull = Inr content"
      and "py_get ep ''description'' (JStr []) = Inr description"
      and "py_get ep ''reference_time'' JNull = Inr reference_time"
      and "py_truthy name" and "py_truthy content"
  shows "(py_truthy reference_time \<and> parse_reference_time E reference_time = None \<longrightarrow>
            process_episode E ep results w =
              (Inr (results @
                 [JObj [(''error'',
                         JStr (''Invalid reference_time for episode: '' @ py_str E name))]]),
               w\<lparr>calls := calls w @ [CallNow]\<rparr>)) \<and>
         (\<not> py_truthy reference_time \<longrightarrow>
            take (length (calls w) + 2) (calls (snd (process_episode E ep results w))) =
              calls w @ [CallNow,
                         CallAddEpisode name content description (utc_now E (length (calls w)))])"
proof (intro conjI impI)
  assume "py_truthy reference_time \<and> parse_reference_time E reference_time = None"
  with assms show "process_episode E ep results w =
              (Inr (results @
                 [JObj [(''error'',
                         JStr (''Invalid reference_time for episode: '' @ py_str E name))]]),
               w\<lparr>calls := calls w @ [CallNow]\<rparr>)"
    by (simp add: process_episode_def)
next
  assume absent: "\<not> py_truthy reference_time"
  let ?now = "utc_now E (length (calls w))"
  let ?w1 = "w\<lparr>calls := calls w @ [CallNow]\<rparr>"
  obtain cs where cs: "calls (snd (add_and_extract E name content description ?now ?w1)) =
      calls ?w1 @ CallAddEpisode name content description ?now # cs"
    using add_and_extract_calls by blast
  have "calls (snd (process_episode E ep results w)) =
      calls w @ [CallNow, CallAddEpisode name content description ?now] @ cs"
    using assms absent cs
    by (cases "add_and_extract E name content description ?now ?w1")
       (auto simp: process_episode_def Let_def split: sum.splits)
  then show "take (length (calls w) + 2) (calls (snd (process_episode E ep results w))) =
              calls w @ [CallNow,
                         CallAddEpisode name content description (utc_now E (length (calls w)))]"
    by simp
qed

lemma misdated_episode_facts:
  "py_get misdated_episode ''name'' JNull = Inr (JStr ''Ep3'')"
  "py_get misdated_episode ''content'' JNull = Inr (JStr ''x'')"
  "py_get misdated_episode ''description'' (JStr []) = Inr (JStr [])"
  "py_get misdated_episode ''reference_time'' JNull = Inr (JStr ''yesterday'')"
  "py_truthy (JStr ''Ep3'')" "py_truthy (JStr ''x'')"
  "py_truthy (JStr ''yesterday'')"
  "parse_reference_time quiet_env (JStr ''yesterday'') = None"
  "py_str quiet_env (JStr ''Ep3'') = ''Ep3''"
  by code_simp+

lemma plain_episode_facts:
  "py_get plain_episode ''name'' JNull = Inr (JStr ''Ep1'')"
  "py_get plain_episode ''content'' JNull = Inr (JStr ''x'')"
  "py_get plain_episode ''description'' (JStr []) = Inr (JStr [])"
  "py_get plain_episode ''reference_time'' JNull = Inr JNull"
  "py_truthy (JStr ''Ep1'')" "py_truthy (JStr ''x'')"
  "\<not> py_truthy JNull"
  "utc_now quiet_env (length (calls empty_world)) = 0"
  "length (calls empty_world) + 2 = 2"
  "calls empty_world = []"
  by code_simp+

theorem reference_time_handling_witness:
  "process_episode quiet_env misdated_episode [] empty_world =
     (Inr [JObj [(''error'', JStr (''Invalid reference_time for episode: '' @ ''Ep3''))]],
      empty_world\<lparr>calls := calls empty_world @ [CallNow]\<rparr>) \<and>
   take 2 (calls (snd (process_episode quiet_env plain_episode [] empty_world))) =
     [CallNow, CallAddEpisode (JStr ''Ep1'') (JStr ''x'') (JStr []) 0]"
  using reference_time_handling[OF misdated_episode_facts(1,2,3,4,5,6), of quiet_env "[]" empty_world]
    reference_time_handling[OF plain_episode_facts(1,2,3,4,5,6), of quiet_env "[]" empty_world]
    misdated_episode_facts(7,8,9) plain_episode_facts(7,8,9,10)
  by (simp add: numeral_2_eq_2)

text \<open>
  C8, as stated, fails on a request that has a name and no content: its outcome is
  \<^verbatim>\<open>{"error": "Missing name or content for one episode"}\<close>, with no \<open>name\<close> field.
\<close>

theorem outcome_without_name_counterexample:
  "py_get nameless_episode ''name'' JNull = Inr (JStr ''Ep2'') \<and>
   add_episodes quiet_env (JArr [nameless_episode]) empty_world =
     (Inr (200, JArr [JObj [(''error'', JStr ''Missing name or content for one episode'')]]),
      empty_world) \<and>
   py_contains ''name'' (JObj [(''error'', JStr ''Missing name or content for one episode'')]) =
     Inr False"
  by code_simp

text \<open>
  C8, amended. Every episode request (a JSON object) appends exactly one outcome. If its
  name or content is falsy, the outcome is the \<open>error\<close> field alone with the fixed
  missing-name-or-content text. Otherwise, if its reference time is truthy and does not
  parse, the outcome is the \<open>error\<close> field alone with the invalid-reference-time text,
  which ends with the name. Otherwise the outcome carries the \<open>name\<close> field: with the
  success message and the structured graph when the episode write, the extraction and the
  insert went through, and with the text of the exception as \<open>error\<close> when one of them
  raised.
\<close>

theorem outcome_shape:
  assumes "py_get ep ''name'' JNull = Inr name"
      and "py_get ep ''content'' JNull = Inr content"
      and "py_get ep ''description'' (JStr []) = Inr description"
      and "py_get ep ''reference_time'' JNull = Inr reference_time"
  shows "\<exists>r. fst (process_episode E ep results w) = Inr (results @ [r]) \<and>
           (if \<not> py_truthy name \<or> \<not> py_truthy content
            then r = JObj [(''error'', JStr ''Missing name or content for one episode'')]
            else if py_truthy reference_time \<and> parse_reference_time E reference_time = None
            then r = JObj [(''error'',
                            JStr (''Invalid reference_time for episode: '' @ py_str E name))]
            else (case fst (add_and_extract E name content description
                              (if py_truthy reference_time
                               then the (parse_reference_time E reference_time)
                               else utc_now E (length (calls w)))
                              (w\<lparr>calls := calls w @ [CallNow]\<rparr>)) of
                    Inl e \<Rightarrow> r = JObj [(''name'', name), (''error'', JStr (exn_str e))]
                  | Inr structured \<Rightarrow>
                      r = JObj [(''name'', name),
                                (''message'', JStr ''Episode added successfully''),
                                (''structured'', structured)]))"
proof -
  let ?now = "utc_now E (length (calls w))"
  let ?w1 = "w\<lparr>calls := calls w @ [CallNow]\<rparr>"
  show ?thesis
  proof (cases "\<not> py_truthy name \<or> \<not> py_truthy content")
    case True
    with assms show ?thesis by (auto simp: process_episode_def)
  next
    case valid: False
    show ?thesis
    proof (cases "if py_truthy reference_time
                  then parse_reference_time E reference_time else Some ?now")
      case None
      with assms valid show ?thesis
        by (auto simp: process_episode_def Let_def split: if_splits)
    next
      case (Some ref_time)
      then have t: "(if py_truthy reference_time
                     then the (parse_reference_time E reference_time) else ?now) = ref_time"
        and ok: "\<not> (py_truthy reference_time \<and> parse_reference_time E reference_time = None)"
        by (auto split: if_splits)
      show ?thesis
        unfolding t
        using assms valid Some ok
        by (cases "add_and_extract E name content description ref_time ?w1")
           (auto simp: process_episode_def Let_def split: if_splits sum.splits)
    qed
  qed
qed

lemma episode_more_facts:
  "py_get nameless_episode ''description'' (JStr []) = Inr (JStr [])"
  "py_get nameless_episode ''reference_time'' JNull = Inr JNull"
  "fst (add_and_extract quiet_env (JStr ''Ep1'') (JStr ''x'') (JStr [])
          (utc_now quiet_env (length (calls empty_world)))
          (empty_world\<lparr>calls := calls empty_world @ [CallNow]\<rparr>)) = Inr (JObj [])"
  by code_simp+

theorem outcome_shape_witness:
  "fst (process_episode quiet_env plain_episode [] empty_world) =
     Inr [JObj [(''name'', JStr ''Ep1''), (''message'', JStr ''Episode added successfully''),
                (''structured'', JObj [])]] \<and>
   fst (process_episode quiet_env nameless_episode [] empty_world) =
     Inr [JObj [(''error'', JStr ''Missing name or content for one episode'')]] \<and>
   fst (process_episode quiet_env misdated_episode [] empty_world) =
     Inr [JObj [(''error'', JStr (''Invalid reference_time for episode: '' @ ''Ep3''))]]"
  using outcome_shape[OF plain_episode_facts(1,2,3,4), of quiet_env "[]" empty_world]
    outcome_shape[OF nameless_episode_facts(1,2) episode_more_facts(1,2),
                  of quiet_env "[]" empty_world]
    outcome_shape[OF misdated_episode_facts(1,2,3,4), of quiet_env "[]" empty_world]
    plain_episode_facts(5,6,7) misdated_episode_facts(5,6,7,8,9) episode_more_facts(3)
  by auto

section \<open>The batch\<close>

lemma process_episode_results:
  "process_episode E ep results w =
     (case process_episode E ep [] w of
        (Inl e, w') \<Rightarrow> (Inl e, w')
      | (Inr rs, w') \<Rightarrow> (Inr (results @ rs), w'))"
  by (auto simp: process_episode_def Let_def split: sum.splits option.splits prod.splits)

lemma process_episode_obj: "\<exists>r w'. process_episode E (JObj kv) [] w = (Inr [r], w')"
  by (auto simp: process_episode_def Let_def split: sum.splits option.splits prod.splits)

lemma process_all_results:
  "process_all E eps results w =
     (case process_all E eps [] w of
        (Inl e, w') \<Rightarrow> (Inl e, w')
      | (Inr rs, w') \<Rightarrow> (Inr (results @ rs), w'))"
proof (induction eps arbitrary: results w)
  case Nil
  then show ?case by simp
next
  case (Cons ep eps)
  show ?case
  proof (cases "process_episode E ep [] w")
    case (Pair r w1)
    show ?thesis
    proof (cases r)
      case (Inl e)
      with Pair show ?thesis
        using process_episode_results[of E ep results w] by simp
    next
      case (Inr rs1)
      have a: "process_all E (ep # eps) results w = process_all E eps (results @ rs1) w1"
        using Pair Inr process_episode_results[of E ep results w] by simp
      have b: "process_all E (ep # eps) [] w = process_all E eps rs1 w1"
        using Pair Inr by simp
      show ?thesis
        unfolding a b
        using Cons.IH[of "results @ rs1" w1] Cons.IH[of rs1 w1]
        by (auto split: prod.splits sum.splits)
    qed
  qed
qed

lemma process_all_snoc:
  "process_all E (eps @ [ep]) results w =
     (case process_all E eps results w of
        (Inl e, w') \<Rightarrow> (Inl e, w')
      | (Inr rs, w') \<Rightarrow> process_episode E ep rs w')"
  by (induction eps arbitrary: results w) (auto split: prod.splits sum.splits)

lemma process_all_objects:
  assumes "\<forall>ep\<in>set eps. \<exists>kv. ep = JObj kv"
  shows "\<exists>rs w'. process_all E eps [] w = (Inr rs, w') \<and> length rs = length eps \<and>
           (\<forall>k<length eps.
              fst (process_episode E (eps ! k) [] (snd (process_all E (take k eps) [] w))) =
                Inr [rs ! k])"
  using assms
proof (induction eps rule: rev_induct)
  case Nil
  then show ?case by simp
next
  case (snoc ep eps)
  then obtain rs w' where rs: "process_all E eps [] w = (Inr rs, w')" "length rs = length eps"
    and each: "\<forall>k<length eps.
              fst (process_episode E (eps ! k) [] (snd (process_all E (take k eps) [] w))) =
                Inr [rs ! k]"
    by auto
  from snoc.prems obtain kv where kv: "ep = JObj kv" by auto
  obtain r w'' where r: "process_episode E ep [] w' = (Inr [r], w'')"
    using process_episode_obj[of E kv w'] kv by auto
  have all: "process_all E (eps @ [ep]) [] w = (Inr (rs @ [r]), w'')"
    using rs r process_episode_results[of E ep rs w'] by (simp add: process_all_snoc)
  have "\<forall>k<length (eps @ [ep]).
              fst (process_episode E ((eps @ [ep]) ! k) []
                     (snd (process_all E (take k (eps @ [ep])) [] w))) =
                Inr [(rs @ [r]) ! k]"
  proof (intro allI impI)
    fix k assume "k < length (eps @ [ep])"
    then consider "k < length eps" | "k = length eps" by force
    then show "fst (process_episode E ((eps @ [ep]) ! k) []
                     (snd (process_all E (take k (eps @ [ep])) [] w))) =
                Inr [(rs @ [r]) ! k]"
    proof cases
      case 1
      then show ?thesis using each rs(2) by (simp add: nth_append)
    next
      case 2
      then show ?thesis using rs r by (simp add: nth_append)
    qed
  qed
  with all rs(2) show ?case by auto
qed

text \<open>
  C3. For a list of N episode requests (JSON objects) the handler answers 200 with a list
  of exactly N outcomes, and outcome k is the outcome of episode k: what one turn of the
  loop appends for it, run in the world the turns for the episodes before it left behind.
  That holds whatever the collaborators do, so whether an earlier episode failed in its
  validation, its time parsing, its episode write, its extraction or its insert, every
  later episode is still processed.
\<close>

theorem batch_outcomes_in_order:
  assumes "\<forall>ep\<in>set episodes. \<exists>kv. ep = JObj kv"
  shows "\<exists>rs w'. add_episodes E (JArr episodes) w = (Inr (200, JArr rs), w') \<and>
           length rs = length episodes \<and>
           (\<forall>k<length episodes.
              fst (process_episode E (episodes ! k) []
                     (snd (process_all E (take k episodes) [] w))) = Inr [rs ! k])"
proof -
  obtain rs w' where "process_all E episodes [] w = (Inr rs, w')" "length rs = length episodes"
    "\<forall>k<length episodes.
       fst (process_episode E (episodes ! k) [] (snd (process_all E (take k episodes) [] w))) =
         Inr [rs ! k]"
    using process_all_objects[OF assms, of E w] by blast
  then show ?thesis by (auto simp: add_episodes_def)
qed

lemma mixed_batch_outcome:
  "fst (add_episodes quiet_env mixed_batch empty_world) =
     Inr (200, JArr [JObj [(''name'', JStr ''Ep1''),
                           (''message'', JStr ''Episode added successfully''),
                           (''structured'', JObj [])],
                     JObj [(''error'', JStr ''Missing name or content for one episode'')],
                     JObj [(''error'', JStr ''Invalid reference_time for episode: Ep3'')]])"
  by code_simp

lemma mixed_batch_objects:
  "mixed_batch = JArr [plain_episode, nameless_episode, misdated_episode]"
  "\<forall>ep\<in>set [plain_episode, nameless_episode, misdated_episode]. \<exists>kv. ep = JObj kv"
  by (simp_all add: mixed_batch_def plain_episode_def nameless_episode_def misdated_episode_def)

theorem batch_outcomes_in_order_witness:
  "\<exists>rs w'. add_episodes quiet_env mixed_batch empty_world = (Inr (200, JArr rs), w') \<and>
     length rs = 3 \<and>
     rs = [JObj [(''name'', JStr ''Ep1''), (''message'', JStr ''Episode added successfully''),
                 (''structured'', JObj [])],
           JObj [(''error'', JStr ''Missing name or content for one episode'')],
           JObj [(''error'', JStr ''Invalid reference_time for episode: Ep3'')]]"
  using batch_outcomes_in_order[OF mixed_batch_objects(2), of quiet_env empty_world]
    mixed_batch_outcome mixed_batch_objects(1)
  by auto

text \<open>
  C4, as stated, fails on a reply that is not valid JSON and on which \<^verbatim>\<open>json.loads\<close>
  raises something other than \<open>JSONDecodeError\<close>: on two thousand opening brackets it
  raises \<open>RecursionError\<close>, which \<^verbatim>\<open>except json.JSONDecodeError\<close> does not catch. The
  exception leaves \<^verbatim>\<open>extract_structured_json\<close> and the episode ends with an error
  outcome, not a success.
\<close>

theorem invalid_json_not_degraded_counterexample:
  "py_strip deep_reply = deep_reply \<and>
   json_loads deep_env deep_reply =
     Inl (RecursionError
       ''maximum recursion depth exceeded while decoding a JSON array from a unicode string'') \<and>
   fst (extract_structured_json deep_env (JStr ''x'') empty_world) =
     Inl (RecursionError
       ''maximum recursion depth exceeded while decoding a JSON array from a unicode string'') \<and>
   fst (process_episode deep_env plain_episode [] empty_world) =
     Inr [JObj [(''name'', JStr ''Ep1''),
                (''error'', JStr
       ''maximum recursion depth exceeded while decoding a JSON array from a unicode string'')]]"
  by code_simp

text \<open>
  C4, amended. When \<^verbatim>\<open>json.loads\<close> rejects the stripped text the LLM returned with a
  \<open>JSONDecodeError\<close>, \<^verbatim>\<open>extract_structured_json\<close> returns the empty dict, and the
  parse error is reported for logging: an error record with the decoder's message is
  appended to the log. The episode still succeeds: its outcome is the success message with
  the empty structured graph, the store is the one the episode write left, and the calls
  made for it are the clock, the episode write and the LLM, with no statement sent to the
  graph store.
\<close>

theorem invalid_json_degrades:
  assumes "py_get ep ''name'' JNull = Inr name"
      and "py_get ep ''content'' JNull = Inr content"
      and "py_get ep ''description'' (JStr []) = Inr description"
      and "py_get ep ''reference_time'' JNull = Inr reference_time"
      and "py_truthy name" and "py_truthy content"
      and "(if py_truthy reference_time then parse_reference_time E reference_time
            else Some (utc_now E (length (calls w)))) = Some ref_time"
      and "graphiti_add_episode E (length (calls w) + 1) name content description ref_time
             (graph w) = (None, g1)"
      and "completion E (length (calls w) + 2) (extraction_prompt (py_str E content)) = Inr reply"
      and "json_loads E (py_strip reply) = Inl (JSONDecodeError m)"
  shows "extract_structured_json E content
           (w\<lparr>graph := g1,
              calls := calls w @ [CallNow, CallAddEpisode name content description ref_time]\<rparr>) =
           (Inr (JObj []),
            w\<lparr>graph := g1,
              calls := calls w @ [CallNow, CallAddEpisode name content description ref_time,
                                  CallCompletion (extraction_prompt (py_str E content))],
              logs := logs w @ [LogInfo (''LLM Response:\<newline>'' @ py_strip reply),
                                LogError (''Failed to parse LLM JSON: '' @ m)]\<rparr>) \<and>
         process_episode E ep results w =
           (Inr (results @
              [JObj [(''name'', name), (''message'', JStr ''Episode added successfully''),
                     (''structured'', JObj [])]]),
            w\<lparr>graph := g1,
              calls := calls w @ [CallNow, CallAddEpisode name content description ref_time,
                                  CallCompletion (extraction_prompt (py_str E content))],
              logs := logs w @ [LogInfo (''LLM Response:\<newline>'' @ py_strip reply),
                                LogError (''Failed to parse LLM JSON: '' @ m)]\<rparr>)"
proof -
  let ?w2 = "w\<lparr>graph := g1,
              calls := calls w @ [CallNow, CallAddEpisode name content description ref_time]\<rparr>"
  let ?w3 = "w\<lparr>graph := g1,
              calls := calls w @ [CallNow, CallAddEpisode name content description ref_time,
                                  CallCompletion (extraction_prompt (py_str E content))],
              logs := logs w @ [LogInfo (''LLM Response:\<newline>'' @ py_strip reply),
                                LogError (''Failed to parse LLM JSON: '' @ m)]\<rparr>"
  have x: "extract_structured_json E content ?w2 = (Inr (JObj []), ?w3)"
    using assms(9,10) by (simp add: extract_structured_json_def Let_def)
  have a: "add_and_extract E name content description ref_time (w\<lparr>calls := calls w @ [CallNow]\<rparr>) =
        (Inr (JObj []), ?w3)"
    using assms(8) x by (simp add: add_and_extract_def)
  have "process_episode E ep results w =
           (Inr (results @
              [JObj [(''name'', name), (''message'', JStr ''Episode added successfully''),
                     (''structured'', JObj [])]]), ?w3)"
    using assms(1-7) a by (simp add: process_episode_def Let_def)
  with x show ?thesis by simp
qed

lemma plain_episode_run:
  "(if py_truthy JNull then parse_reference_time quiet_env JNull
    else Some (utc_now quiet_env (length (calls empty_world)))) = Some 0"
  "graphiti_add_episode quiet_env (length (calls empty_world) + 1) (JStr ''Ep1'') (JStr ''x'')
     (JStr []) 0 (graph empty_world) = (None, \<lparr>gnodes = [episode_node (JStr ''Ep1'')], grels = []\<rparr>)"
  "completion quiet_env (length (calls empty_world) + 2)
     (extraction_prompt (py_str quiet_env (JStr ''x''))) = Inr ''  not json  ''"
  "json_loads quiet_env (py_strip ''  not json  '') =
     Inl (JSONDecodeError ''Expecting value: line 1 column 1 (char 0)'')"
  "py_strip ''  not json  '' = ''not json''"
  by code_simp+

theorem invalid_json_degrades_witness:
  "process_episode quiet_env plain_episode [] empty_world =
     (Inr ([] @ [JObj [(''name'', JStr ''Ep1''), (''message'', JStr ''Episode added successfully''),
                       (''structured'', JObj [])]]),
      empty_world\<lparr>graph := \<lparr>gnodes = [episode_node (JStr ''Ep1'')], grels = []\<rparr>,
        calls := calls empty_world @
           [CallNow, CallAddEpisode (JStr ''Ep1'') (JStr ''x'') (JStr []) 0,
            CallCompletion (extraction_prompt (py_str quiet_env (JStr ''x'')))],
        logs := logs empty_world @
           [LogInfo (''LLM Response:\<newline>'' @ py_strip ''  not json  ''),
            LogError (''Failed to parse LLM JSON: '' @
                      ''Expecting value: line 1 column 1 (char 0)'')]\<rparr>)"
  using invalid_json_degrades[OF plain_episode_facts(1,2,3,4,5,6) plain_episode_run(1,2,3,4),
          of "[]"]
  by (rule conjunct2)

section \<open>Search\<close>

text \<open>
  C9. When the graph engine's search raises, \<^verbatim>\<open>search_graphiti\<close> raises an exception
  whose message is \<^verbatim>\<open>Graphiti search failed: \<close> followed by the cause, and the endpoint
  answers 500 with the fixed body
  \<^verbatim>\<open>{"detail": "An error occurred while processing the request"}\<close>, which does not
  depend on the cause and holds no result; the store is untouched.
\<close>

theorem search_failure_is_generic:
  assumes "validate_search_request E request_data = Inr query"
      and "graphiti_connect E (length (calls w)) = None"
      and "graphiti_search E (length (calls w) + 1) query = Inl e"
  shows "fst (search_graphiti E query
                (w\<lparr>calls := calls w @ [CallConnect],
                   logs := logs w @
                     [LogInfo (''Search request data: '' @ py_str E request_data)]\<rparr>)) =
           Inl (Exception (''Graphiti search failed: '' @ exn_str e)) \<and>
         fst (search_graphiti_api E request_data w) =
           (500, JObj [(''detail'', JStr ''An error occurred while processing the request'')]) \<and>
         graph (snd (search_graphiti_api E request_data w)) = graph w"
  using assms
  by (simp add: search_graphiti_api_def search_graphiti_def search_failed_def Let_def)

lemma yoga_query_facts:
  "validate_search_request quiet_env yoga_query = Inr ''who practices yoga''"
  "graphiti_connect quiet_env (length (calls empty_world)) = None"
  "graphiti_search quiet_env (length (calls empty_world) + 1) ''who practices yoga'' =
     Inl (Exception ''connection refused'')"
  by code_simp+

theorem search_failure_is_generic_witness:
  "fst (search_graphiti quiet_env ''who practices yoga''
          (empty_world\<lparr>calls := calls empty_world @ [CallConnect],
             logs := logs empty_world @
               [LogInfo (''Search request data: '' @ py_str quiet_env yoga_query)]\<rparr>)) =
     Inl (Exception (''Graphiti search failed: '' @ exn_str (Exception ''connection refused''))) \<and>
   fst (search_graphiti_api quiet_env yoga_query empty_world) =
     (500, JObj [(''detail'', JStr ''An error occurred while processing the request'')]) \<and>
   graph (snd (search_graphiti_api quiet_env yoga_query empty_world)) = graph empty_world"
  using search_failure_is_generic[OF yoga_query_facts] by simp

end
